theory Spec2Isabelle
  imports Main "HOL-Library.Char_ord" "HOL-Library.List_Lexorder"
begin

section \<open>The transcript pipeline of alfred-talk (src/index.ts)\<close>

text \<open>
  The plugin drains a directory mailbox of call transcripts: a poller lists the date
  buckets, skips the files named in the append-only log \<^verbatim>\<open>.processed\<close>, and hands every
  other file to \<^verbatim>\<open>processTranscript\<close>, which normalises the payload and delivers it to a
  chat notifier, a summariser and an inbox writer. The functions below follow
  \<^verbatim>\<open>src/index.ts\<close> function by function and keep its names.

  Conventions of the embedding.
  \<^item> A JavaScript string is a \<^typ>\<open>string\<close>; the text is taken to be ASCII, so that
    \<^verbatim>\<open>trim\<close> removes the six ASCII blanks and \<^verbatim>\<open>toLowerCase\<close> maps \<^verbatim>\<open>A-Z\<close> only. Where a
    statement depends on it, it says so (\<open>ascii\<close>).
  \<^item> A payload is read with the field types the provider documents and the signatures
    of the source declare (string identifiers, as in \<^verbatim>\<open>resolveCallerName(phone: string, ...)\<close>,
    whole seconds, a list of turn objects with string messages); a field that is absent
    or \<^verbatim>\<open>null\<close> is \<^term>\<open>None\<close>, which is what \<^verbatim>\<open>?.\<close> and \<^verbatim>\<open>??\<close> distinguish.
  \<^item> The contact directory is a plain JavaScript object, read with \<^verbatim>\<open>contacts[phone]\<close>:
    a number that is the name of a member of \<^verbatim>\<open>Object.prototype\<close> finds that member when
    the directory has no entry of its own for it. The caller's name is therefore a
    string or such a member.
  \<^item> A call that can throw returns a sum; \<^term>\<open>Inl\<close> carries \<^verbatim>\<open>err.message\<close>. The places
    that can throw are the calls on the mailbox (\<^verbatim>\<open>readdirSync\<close>, \<^verbatim>\<open>readFileSync\<close>,
    \<^verbatim>\<open>JSON.parse\<close> and the reading of the turns), the calls of the three sinks, and
    \<^verbatim>\<open>callerName.toLowerCase()\<close>; appending to the ledger and logging are taken to succeed.
  \<^item> The configuration is as the plugin's setup writes it: the directory maps strings
    to strings, \<^verbatim>\<open>inboxDir\<close> and \<^verbatim>\<open>summaryModel\<close> are strings or absent.
  \<^item> The mailbox is only read; the inbox directory lies outside it. Ticks follow one
    another and do not overlap.
\<close>

subsection \<open>String operations of the JavaScript library\<close>

definition is_space :: "char \<Rightarrow> bool" where
  "is_space c \<longleftrightarrow> c \<in> {CHR 0x09, CHR 0x0A, CHR 0x0B, CHR 0x0C, CHR 0x0D, CHR 0x20}"

text \<open>\<^verbatim>\<open>s.trim()\<close>\<close>

definition trim :: "string \<Rightarrow> string" where
  "trim s = rev (dropWhile is_space (rev (dropWhile is_space s)))"

definition is_upper :: "char \<Rightarrow> bool" where
  "is_upper c \<longleftrightarrow> CHR ''A'' \<le> c \<and> c \<le> CHR ''Z''"

definition is_lower :: "char \<Rightarrow> bool" where
  "is_lower c \<longleftrightarrow> CHR ''a'' \<le> c \<and> c \<le> CHR ''z''"

definition is_digit :: "char \<Rightarrow> bool" where
  "is_digit c \<longleftrightarrow> CHR ''0'' \<le> c \<and> c \<le> CHR ''9''"

text \<open>An upper-case letter and its lower-case letter differ in the bit of weight 32.\<close>

definition lower_char :: "char \<Rightarrow> char" where
  "lower_char c =
     (if is_upper c
      then (case c of Char b0 b1 b2 b3 b4 b5 b6 b7 \<Rightarrow> Char b0 b1 b2 b3 b4 True b6 b7)
      else c)"

text \<open>\<^verbatim>\<open>s.toLowerCase()\<close>\<close>

definition toLowerCase :: "string \<Rightarrow> string" where
  "toLowerCase s = map lower_char s"

text \<open>\<^verbatim>\<open>s.startsWith(p)\<close>, \<^verbatim>\<open>s.endsWith(p)\<close>, \<^verbatim>\<open>s.includes(p)\<close>\<close>

definition startsWith :: "string \<Rightarrow> string \<Rightarrow> bool" where
  "startsWith s p \<longleftrightarrow> take (length p) s = p"

definition endsWith :: "string \<Rightarrow> string \<Rightarrow> bool" where
  "endsWith s p \<longleftrightarrow> startsWith (rev s) (rev p)"

fun includes_str :: "string \<Rightarrow> string \<Rightarrow> bool" where
  "includes_str [] p = (p = [])"
| "includes_str (c # cs) p = (startsWith (c # cs) p \<or> includes_str cs p)"

text \<open>
  \<^verbatim>\<open>s.replace(/<[^>]+>/g, "")\<close>: scanning from the left, an opening bracket followed by
  at least one character other than \<^verbatim>\<open>>\<close> and then by \<^verbatim>\<open>>\<close> is removed together with
  what it encloses; the scan goes on after the closing bracket. Any other character is
  kept.
\<close>

definition not_gt :: "char \<Rightarrow> bool" where
  "not_gt c \<longleftrightarrow> c \<noteq> CHR ''>''"

text \<open>
  \<open>opens_tag cs\<close>: after an opening bracket, \<open>cs\<close> goes on with \<^verbatim>\<open>[^>]+>\<close>; the match is
  the longest run of characters other than \<^verbatim>\<open>>\<close> and the bracket that ends it.
\<close>

definition opens_tag :: "string \<Rightarrow> bool" where
  "opens_tag cs \<longleftrightarrow> takeWhile not_gt cs \<noteq> [] \<and> dropWhile not_gt cs \<noteq> []"

function strip_tags :: "string \<Rightarrow> string" where
  "strip_tags [] = []"
| "strip_tags (c # cs) =
     (if c = CHR ''<'' \<and> opens_tag cs
      then strip_tags (tl (dropWhile not_gt cs))
      else c # strip_tags cs)"
  by pat_completeness auto
termination
proof (relation "measure length")
  fix c :: char and cs :: string
  have "length (tl (dropWhile not_gt cs)) \<le> length cs"
    using length_dropWhile_le [of not_gt cs] by simp
  then show "(tl (dropWhile not_gt cs), c # cs) \<in> measure length"
    by simp
qed simp_all

text \<open>\<^verbatim>\<open>s.split(sep)\<close> for a separator of one character: never the empty list.\<close>

fun split_on :: "char \<Rightarrow> string \<Rightarrow> string list" where
  "split_on sep [] = [[]]"
| "split_on sep (c # cs) =
     (if c = sep then [] # split_on sep cs
      else (case split_on sep cs of
              [] \<Rightarrow> [[c]]
            | x # xs \<Rightarrow> (c # x) # xs))"

text \<open>\<^verbatim>\<open>xs.join(sep)\<close>\<close>

fun join_with :: "string \<Rightarrow> string list \<Rightarrow> string" where
  "join_with sep [] = []"
| "join_with sep [x] = x"
| "join_with sep (x # y # ys) = x @ sep @ join_with sep (y # ys)"

text \<open>
  \<^verbatim>\<open>s.replace(pat, by)\<close> for a pattern that is a string of one character: the first
  occurrence only. In the replacement \<^verbatim>\<open>$$\<close> stands for a dollar sign, \<^verbatim>\<open>$&\<close> for the text
  matched, \<^verbatim>\<open>$`\<close> for what precedes the match and \<^verbatim>\<open>$'\<close> for what follows it; a pattern
  that is a string has no groups, so any other dollar sign stands for itself.
\<close>

fun expand_replacement :: "string \<Rightarrow> string \<Rightarrow> string \<Rightarrow> string \<Rightarrow> string" where
  "expand_replacement matched before after [] = []"
| "expand_replacement matched before after [c] = [c]"
| "expand_replacement matched before after (c # e # cs) =
     (if c = CHR ''$'' \<and> e = CHR ''$'' then CHR ''$'' # expand_replacement matched before after cs
      else if c = CHR ''$'' \<and> e = CHR ''&'' then matched @ expand_replacement matched before after cs
      else if c = CHR ''$'' \<and> e = CHR 0x60 then before @ expand_replacement matched before after cs
      else if c = CHR ''$'' \<and> e = CHR 0x27 then after @ expand_replacement matched before after cs
      else c # expand_replacement matched before after (e # cs))"

fun replace_from :: "char \<Rightarrow> string \<Rightarrow> string \<Rightarrow> string \<Rightarrow> string" where
  "replace_from pat by before [] = []"
| "replace_from pat by before (c # cs) =
     (if c = pat then expand_replacement [pat] before cs by @ cs
      else c # replace_from pat by (before @ [c]) cs)"

definition replace_first :: "char \<Rightarrow> string \<Rightarrow> string \<Rightarrow> string" where
  "replace_first pat by s = replace_from pat by [] s"

text \<open>
  Whole numbers in a template literal. \<^verbatim>\<open>a % b\<close> has the sign of \<^verbatim>\<open>a\<close>; \<^verbatim>\<open>Math.floor(a / b)\<close>
  is \<^term>\<open>a div b\<close> on \<^typ>\<open>int\<close>.
\<close>

definition digit_char :: "nat \<Rightarrow> char" where
  "digit_char d = ''0123456789'' ! d"

function show_nat :: "nat \<Rightarrow> string" where
  "show_nat n = (if n < 10 then [digit_char n] else show_nat (n div 10) @ [digit_char (n mod 10)])"
  by pat_completeness auto
termination
  by (relation "measure id") auto

definition show_int :: "int \<Rightarrow> string" where
  "show_int i = (if i < 0 then CHR ''-'' # show_nat (nat (- i)) else show_nat (nat i))"

definition js_rem :: "int \<Rightarrow> int \<Rightarrow> int" where
  "js_rem a b = (if a < 0 then - ((- a) mod \<bar>b\<bar>) else a mod \<bar>b\<bar>)"

text \<open>\<^verbatim>\<open>s.padStart(2, "0")\<close>\<close>

definition padStart2 :: "string \<Rightarrow> string" where
  "padStart2 s = replicate (2 - length s) (CHR ''0'') @ s"

text \<open>
  \<^verbatim>\<open>join(a, b)\<close> of \<^verbatim>\<open>node:path\<close>, for a directory path \<^verbatim>\<open>a\<close> already in normal form and a
  file or directory name \<^verbatim>\<open>b\<close> as \<^verbatim>\<open>readdirSync\<close> gives it.
\<close>

definition join :: "string \<Rightarrow> string \<Rightarrow> string" where
  "join a b = a @ ''/'' @ b"

subsection \<open>Caller names\<close>

text \<open>
  \<^verbatim>\<open>function resolveCallerName(phone: string, contacts: Record<string, string>): string {
    return contacts[phone] || phone || "Unknown caller";
  }\<close>
  The directory is a plain object (\<^verbatim>\<open>cfg.contacts ?? {}\<close>): the map holds its own
  properties, the display names, and \<^verbatim>\<open>contacts[phone]\<close> finds an own property or else the
  member of that name which every object inherits from \<^verbatim>\<open>Object.prototype\<close>. These members
  are functions, and \<^verbatim>\<open>__proto__\<close> is the prototype object itself; none of them is a string
  and all of them are truthy. \<^verbatim>\<open>||\<close> passes over an operand that is falsy: \<^verbatim>\<open>undefined\<close> (no
  such property) and the empty string. So the value returned is a string or, in spite of
  the declared type, an inherited member.
\<close>

definition object_prototype_names :: "string list" where
  "object_prototype_names =
     [''constructor'', ''__defineGetter__'', ''__defineSetter__'', ''hasOwnProperty'',
      ''__lookupGetter__'', ''__lookupSetter__'', ''isPrototypeOf'', ''propertyIsEnumerable'',
      ''toString'', ''valueOf'', ''__proto__'', ''toLocaleString'']"

datatype caller = Name string | Inherited string

definition resolveCallerName :: "string \<Rightarrow> (string \<rightharpoonup> string) \<Rightarrow> caller" where
  "resolveCallerName phone contacts =
     (case contacts phone of
        Some name \<Rightarrow> if name \<noteq> [] then Name name
                     else if phone \<noteq> [] then Name phone else Name ''Unknown caller''
      | None \<Rightarrow> if phone \<in> set object_prototype_names then Inherited phone
                else if phone \<noteq> [] then Name phone else Name ''Unknown caller'')"

text \<open>
  The caller in a template literal, \<^verbatim>\<open>`${callerName}`\<close>: a string stands for itself, a
  built-in function is printed as Node prints it, the prototype object as any plain
  object.
\<close>

definition caller_text :: "caller \<Rightarrow> string" where
  "caller_text c =
     (case c of
        Name n \<Rightarrow> n
      | Inherited k \<Rightarrow>
          if k = ''__proto__'' then ''[object Object]''
          else ''function '' @ (if k = ''constructor'' then ''Object'' else k) @
               ''() { [native code] }'')"

subsection \<open>Payloads\<close>

text \<open>
  What \<^verbatim>\<open>JSON.parse\<close> gives for a mailbox file, as far as the plugin reads it. The provider
  has sent the fields of a call both nested under \<^verbatim>\<open>data\<close> and flat at the top level, so a
  record carries the fields of a body itself and, when there is one, the nested body.
\<close>

record turn =
  role :: "string option"
  message :: "string option"
  time_in_call_secs :: "int option"

record call_metadata =
  call_duration_secs :: "int option"

record call_body =
  user_id :: "string option"
  conversation_id :: "string option"
  transcript :: "turn list option"
  metadata :: "call_metadata option"

record call_record = call_body +
  data :: "call_body option"

text \<open>\<^verbatim>\<open>x ?? d\<close>; the optional chain \<^verbatim>\<open>x?.f\<close> is \<^term>\<open>Option.bind x f\<close>.\<close>

definition coalesce :: "'a option \<Rightarrow> 'a \<Rightarrow> 'a" where
  "coalesce x d = (case x of Some v \<Rightarrow> v | None \<Rightarrow> d)"

text \<open>\<^verbatim>\<open>const userPhone = data?.data?.user_id ?? data?.user_id ?? "";\<close>\<close>

definition userPhone :: "call_record \<Rightarrow> string" where
  "userPhone d = coalesce (Option.bind (data d) user_id) (coalesce (user_id d) [])"

text \<open>\<^verbatim>\<open>const callDuration = data?.data?.metadata?.call_duration_secs ?? 0;\<close>\<close>

definition callDuration :: "call_record \<Rightarrow> int" where
  "callDuration d =
     coalesce (Option.bind (Option.bind (data d) metadata) call_duration_secs) 0"

text \<open>
  \<^verbatim>\<open>const conversationId = data?.data?.conversation_id ?? data?.conversation_id ?? "unknown";\<close>
\<close>

definition conversationId :: "call_record \<Rightarrow> string" where
  "conversationId d =
     coalesce (Option.bind (data d) conversation_id) (coalesce (conversation_id d) ''unknown'')"

text \<open>\<^verbatim>\<open>const transcript = data?.data?.transcript ?? data?.transcript ?? [];\<close>\<close>

definition transcript_of :: "call_record \<Rightarrow> turn list" where
  "transcript_of d = coalesce (Option.bind (data d) transcript) (coalesce (transcript d) [])"

subsection \<open>Normalising the dialogue\<close>

text \<open>
  The body of the loop over the turns in \<^verbatim>\<open>processTranscript\<close>:
  \<^verbatim>\<open>let role = t.role ?? "?";
  if (role === "agent") role = "Alfred";
  else if (role === "user") role = callerName;
  const msg = (t.message ?? "").replace(/<[^>]+>/g, "").trim();
  if (msg && msg.toLowerCase() !== "none") lines.push(`${role}: ${msg}`);\<close>
\<close>

definition speaker_label :: "string \<Rightarrow> turn \<Rightarrow> string" where
  "speaker_label callerName t =
     (let r = coalesce (role t) ''?''
      in if r = ''agent'' then ''Alfred'' else if r = ''user'' then callerName else r)"

definition clean_message :: "turn \<Rightarrow> string" where
  "clean_message t = trim (strip_tags (coalesce (message t) []))"

fun build_lines :: "string \<Rightarrow> turn list \<Rightarrow> string list" where
  "build_lines callerName [] = []"
| "build_lines callerName (t # ts) =
     (let r = speaker_label callerName t; msg = clean_message t
      in if msg \<noteq> [] \<and> toLowerCase msg \<noteq> ''none''
         then (r @ '': '' @ msg) # build_lines callerName ts
         else build_lines callerName ts)"

text \<open>
  \<^verbatim>\<open>const durationStr = callDuration
    ? `${Math.floor(callDuration / 60)}m${callDuration % 60}s` : "unknown duration";\<close>
\<close>

definition durationStr :: "int \<Rightarrow> string" where
  "durationStr secs =
     (if secs \<noteq> 0 then show_int (secs div 60) @ ''m'' @ show_int (js_rem secs 60) @ ''s''
      else ''unknown duration'')"

text \<open>
  \<^verbatim>\<open>const fileName = filePath.split("/").pop() ?? "";
  const timeMatch = fileName.match(/^(\d{2})-(\d{2})-(\d{2})_/);
  const timeStr = timeMatch ? `${timeMatch[1]}:${timeMatch[2]}` : "unknown";
  const dateStr = filePath.split("/").slice(-2, -1)[0] ?? "unknown";\<close>
\<close>

definition fileName_of :: "string \<Rightarrow> string" where
  "fileName_of filePath = last (split_on (CHR ''/'') filePath)"

definition timeStr_of :: "string \<Rightarrow> string" where
  "timeStr_of fileName =
     (case fileName of
        h1 # h2 # d1 # m1 # m2 # d2 # s1 # s2 # u # rest \<Rightarrow>
          if is_digit h1 \<and> is_digit h2 \<and> d1 = CHR ''-'' \<and> is_digit m1 \<and> is_digit m2 \<and>
             d2 = CHR ''-'' \<and> is_digit s1 \<and> is_digit s2 \<and> u = CHR ''_''
          then [h1, h2, CHR '':'', m1, m2]
          else ''unknown''
      | _ \<Rightarrow> ''unknown'')"

definition dateStr_of :: "string \<Rightarrow> string" where
  "dateStr_of filePath =
     (let parts = split_on (CHR ''/'') filePath
      in if 2 \<le> length parts then parts ! (length parts - 2) else ''unknown'')"

subsection \<open>The plugin's surroundings\<close>

text \<open>
  The mailbox is written by the webhook receiver and only read by the plugin:
  \<^verbatim>\<open>existsSync\<close> and \<^verbatim>\<open>readdirSync\<close> on its directories (the names in the order the operating
  system returns them, \<^term>\<open>Inl\<close> when the call throws) and
  \<^verbatim>\<open>JSON.parse(readFileSync(path, "utf-8"))\<close> on its files. \<open>mb_read\<close> is \<^term>\<open>Inl\<close> when a file
  cannot be read as a call record: reading or parsing throws, or the document is one on
  which the loop over the turns throws (a transcript that cannot be iterated, a turn
  that is \<^verbatim>\<open>null\<close>, a message that is not a string). In each of these cases
  \<^verbatim>\<open>processTranscript\<close> throws before it has done anything, and \<^verbatim>\<open>getTranscript\<close> goes on to
  the next bucket.
\<close>

record mailbox =
  mb_exists :: "string \<Rightarrow> bool"
  mb_readdir :: "string \<Rightarrow> string + string list"
  mb_read :: "string \<Rightarrow> string + call_record"

text \<open>
  The configuration of the plugin (\<^verbatim>\<open>cfg.contacts\<close>, \<^verbatim>\<open>cfg.transcripts?.inboxDir\<close>,
  \<^verbatim>\<open>cfg.transcripts?.summaryModel\<close>) and of its host: whether \<^verbatim>\<open>api.runtime?.tools?.invoke\<close>
  is there, and \<^verbatim>\<open>homedir()\<close>.
\<close>

record config =
  contacts :: "string \<rightharpoonup> string"
  inboxDir :: "string option"
  summaryModel :: "string option"

record api =
  tools_invoke :: bool
  homedir :: string

text \<open>
  What the plugin does to the world, in the order it does it: the two tool invocations,
  the two file-system calls of the inbox writer, and the logger.
\<close>

datatype event =
    Invoke_message string
  | Invoke_sessions_spawn string string
  | Mkdir_sync string
  | Write_file_sync string string
  | Logger_warn string
  | Logger_info string

text \<open>
  How the surroundings answer the calls made for one entry: \<^term>\<open>None\<close> when the call
  returns, \<^term>\<open>Some m\<close> when it throws an error with message \<open>m\<close>.
\<close>

record outcomes =
  message_result :: "string option"
  spawn_result :: "string option"
  mkdir_result :: "string option"
  write_result :: "string option"

text \<open>
  The state the plugin changes. A log file such as \<^verbatim>\<open>.processed\<close> is kept as the list of
  its records, one per line, oldest first; a file that does not exist has no record.
  (The encoding as lines is exact for identifiers without a line break or blanks at
  either end, which paths built from a mailbox file name are.) The ledger is assumed
  writable.
\<close>

record world =
  processed_log :: "string \<Rightarrow> string list"
  fs_dirs :: "string set"
  fs_files :: "string \<rightharpoonup> string"
  trace :: "event list"

definition emit :: "event \<Rightarrow> world \<Rightarrow> world" where
  "emit e w = w\<lparr>trace := trace w @ [e]\<rparr>"

subsection \<open>The ledger\<close>

definition PROCESSED_FILE_NAME :: string where
  "PROCESSED_FILE_NAME = ''.processed''"

definition processedFilePath :: "string \<Rightarrow> string" where
  "processedFilePath transcriptDir = join transcriptDir PROCESSED_FILE_NAME"

text \<open>
  \<^verbatim>\<open>function loadProcessed(transcriptDir: string): Set<string> {
    const p = processedFilePath(transcriptDir);
    if (!existsSync(p)) return new Set();
    return new Set(readFileSync(p, "utf-8").trim().split("\n").filter(Boolean));
  }\<close>
\<close>

definition loadProcessed :: "string \<Rightarrow> world \<Rightarrow> string set" where
  "loadProcessed transcriptDir w =
     set (filter (\<lambda>l. l \<noteq> []) (processed_log w (processedFilePath transcriptDir)))"

text \<open>
  \<^verbatim>\<open>function markProcessed(transcriptDir: string, path: string) {
    appendFileSync(processedFilePath(transcriptDir), path + "\n");
  }\<close>
\<close>

definition markProcessed :: "string \<Rightarrow> string \<Rightarrow> world \<Rightarrow> world" where
  "markProcessed transcriptDir path w =
     w\<lparr>processed_log := (processed_log w)
         (processedFilePath transcriptDir :=
            processed_log w (processedFilePath transcriptDir) @ [path])\<rparr>"

subsection \<open>The three sinks\<close>

abbreviation nl :: string where
  "nl \<equiv> [CHR 0x0A]"

text \<open>The telephone sign and the dash of the source's texts, in UTF-8.\<close>

abbreviation phone_sign :: string where
  "phone_sign \<equiv> [CHR 0xF0, CHR 0x9F, CHR 0x93, CHR 0x9E]"

abbreviation long_dash :: string where
  "long_dash \<equiv> [CHR 0xE2, CHR 0x80, CHR 0x94]"

definition chat_message :: "string \<Rightarrow> string \<Rightarrow> string \<Rightarrow> string \<Rightarrow> string \<Rightarrow> string" where
  "chat_message callerName timeStr duration convId transcriptText =
     phone_sign @ '' *Voice call with '' @ callerName @ ''* ('' @ timeStr @ '', '' @ duration @ '')'' @ nl @
     ''Conversation: `'' @ convId @ ''`'' @ nl @ nl @
     ''```'' @ transcriptText @ ''```''"

text \<open>
  \<^verbatim>\<open>try { const tools = api.runtime?.tools;
        if (tools?.invoke) { await tools.invoke("message", { action: "send", message: ... }); }
  } catch (err: any) { api.logger.warn(`[alfred-talk] Notification failed: ${err.message}`); }\<close>
\<close>

definition notify :: "api \<Rightarrow> outcomes \<Rightarrow> string \<Rightarrow> world \<Rightarrow> world" where
  "notify a oc msg w =
     (if tools_invoke a
      then (case message_result oc of
              None \<Rightarrow> emit (Invoke_message msg) w
            | Some err \<Rightarrow>
                emit (Logger_warn (''[alfred-talk] Notification failed: '' @ err))
                  (emit (Invoke_message msg) w))
      else w)"

definition summary_task :: "string \<Rightarrow> string \<Rightarrow> string \<Rightarrow> string" where
  "summary_task callerName duration transcriptText =
     ''Summarize this phone call in 2-3 sentences. '' @
     ''The call was between Alfred (voice agent) and '' @ callerName @ '' ('' @ duration @ ''). '' @
     ''Cover: what was discussed, any action items or decisions. '' @
     ''Reply with ONLY the summary '' @ long_dash @ '' no preamble.'' @ nl @ nl @
     ''Transcript:'' @ nl @ transcriptText"

text \<open>
  \<^verbatim>\<open>try { const tools = api.runtime?.tools;
        if (tools?.invoke) {
          const summaryModel = cfg.transcripts?.summaryModel ?? "anthropic/claude-haiku-4-5";
          await tools.invoke("sessions_spawn", { task: ..., model: summaryModel, ... }); }
  } catch (err: any) { api.logger.warn(`[alfred-talk] Summary failed: ${err.message}`); }\<close>
\<close>

definition summarize :: "api \<Rightarrow> config \<Rightarrow> outcomes \<Rightarrow> string \<Rightarrow> world \<Rightarrow> world" where
  "summarize a cfg oc task w =
     (if tools_invoke a
      then (let model = coalesce (summaryModel cfg) ''anthropic/claude-haiku-4-5''
            in case spawn_result oc of
                 None \<Rightarrow> emit (Invoke_sessions_spawn task model) w
               | Some err \<Rightarrow>
                   emit (Logger_warn (''[alfred-talk] Summary failed: '' @ err))
                     (emit (Invoke_sessions_spawn task model) w))
      else w)"

text \<open>
  \<^verbatim>\<open>const timeSlug = timeStr.replace(":", "");
  const callerSlug = callerName.toLowerCase().replace(/[^a-z0-9]/g, "-");
  const inboxFilename = `voice-${dateStr}-${timeSlug}-${callerSlug}.md`;\<close>
\<close>


definition callerSlug :: "string \<Rightarrow> string" where
  "callerSlug callerName =
     map (\<lambda>c. if is_lower c \<or> is_digit c then c else CHR ''-'') (toLowerCase callerName)"

definition inboxFilename :: "string \<Rightarrow> string \<Rightarrow> string \<Rightarrow> string" where
  "inboxFilename dateStr timeStr callerName =
     ''voice-'' @ dateStr @ ''-'' @ replace_first (CHR '':'') [] timeStr @ ''-'' @
     callerSlug callerName @ ''.md''"

definition frontmatter :: "string \<Rightarrow> string \<Rightarrow> string \<Rightarrow> string \<Rightarrow> string \<Rightarrow> string \<Rightarrow> string" where
  "frontmatter dateStr timeStr callerName phone duration convId =
     ''---'' @ nl @ ''type: voice-transcript'' @ nl @ ''date: '' @ dateStr @ nl @
     ''time: \"'' @ timeStr @ ''\"'' @ nl @ ''caller: \"'' @ callerName @ ''\"'' @ nl @
     ''phone: \"'' @ phone @ ''\"'' @ nl @ ''duration: \"'' @ duration @ ''\"'' @ nl @
     ''conversation_id: \"'' @ convId @ ''\"'' @ nl @ ''---'' @ nl"

definition inbox_body :: "string \<Rightarrow> string \<Rightarrow> string \<Rightarrow> string \<Rightarrow> string \<Rightarrow> string \<Rightarrow> string" where
  "inbox_body dateStr timeStr callerName phone duration transcriptText =
     nl @ ''# Voice Call '' @ long_dash @ '' '' @ callerName @ '' ('' @ dateStr @ '' '' @ timeStr @ '')'' @
     nl @ nl @
     ''Duration: '' @ duration @ '' | Caller: '' @ callerName @ '' ('' @ phone @ '')'' @ nl @ nl @
     transcriptText @ nl"

text \<open>
  \<^verbatim>\<open>try {
    if (!existsSync(resolvedInbox)) mkdirSync(resolvedInbox, { recursive: true });
    writeFileSync(inboxPath, frontmatter + body);
    api.logger.info(`[alfred-talk] Wrote to vault inbox: ${inboxFilename}`);
  } catch (err: any) { api.logger.warn(`[alfred-talk] Inbox write failed: ${err.message}`); }\<close>
\<close>

definition inbox_failed :: "string \<Rightarrow> world \<Rightarrow> world" where
  "inbox_failed err w = emit (Logger_warn (''[alfred-talk] Inbox write failed: '' @ err)) w"

definition write_inbox ::
  "outcomes \<Rightarrow> string \<Rightarrow> string \<Rightarrow> string \<Rightarrow> world \<Rightarrow> world" where
  "write_inbox oc resolvedInbox filename content w =
     (let inboxPath = join resolvedInbox filename;
          absent = resolvedInbox \<notin> fs_dirs w;
          w1 = (if absent then emit (Mkdir_sync resolvedInbox) w else w)
      in case (if absent then mkdir_result oc else None) of
           Some err \<Rightarrow> inbox_failed err w1
         | None \<Rightarrow>
             (let w2 = emit (Write_file_sync inboxPath content)
                         (w1\<lparr>fs_dirs := insert resolvedInbox (fs_dirs w1)\<rparr>)
              in case write_result oc of
                   Some err \<Rightarrow> inbox_failed err w2
                 | None \<Rightarrow>
                     emit (Logger_info (''[alfred-talk] Wrote to vault inbox: '' @ filename))
                       (w2\<lparr>fs_files := (fs_files w2)(inboxPath \<mapsto> content)\<rparr>)))"

subsection \<open>Processing one mailbox entry\<close>

text \<open>
  \<^verbatim>\<open>async function processTranscript(api, cfg, transcriptDir, filePath)\<close>. The function
  throws at two places. Reading the entry throws for a file that cannot be read as a call
  record; nothing has been done by then. An entry without a line is marked and left; any
  other entry goes to the chat notifier and to the summariser, each inside its own
  \<^verbatim>\<open>try\<close>. When \<^verbatim>\<open>inboxDir\<close> is set and not empty the name and the text of the inbox file are
  computed next, outside every \<^verbatim>\<open>try\<close>: \<^verbatim>\<open>callerName.toLowerCase()\<close> throws a \<^verbatim>\<open>TypeError\<close> when
  the caller is not a string, and then the function is left with the two sinks called
  and the entry not marked. Otherwise the inbox writer runs inside its \<^verbatim>\<open>try\<close>, and the
  entry is marked after it.
\<close>

text \<open>
  The values \<^verbatim>\<open>processTranscript\<close> computes for an entry with lines before it calls the sinks:
  \<^verbatim>\<open>callerName\<close>, \<^verbatim>\<open>durationStr\<close>, \<^verbatim>\<open>timeStr\<close> and \<^verbatim>\<open>dateStr\<close>, and from them the texts handed over.
  \<open>caller_of\<close> is the value of \<^verbatim>\<open>callerName\<close>, \<open>callerName_of\<close> its text in a speaker's label
  and in the messages.
\<close>

definition caller_of :: "config \<Rightarrow> call_record \<Rightarrow> caller" where
  "caller_of cfg d = resolveCallerName (userPhone d) (contacts cfg)"

definition callerName_of :: "config \<Rightarrow> call_record \<Rightarrow> string" where
  "callerName_of cfg d = caller_text (caller_of cfg d)"

definition chat_text :: "config \<Rightarrow> string \<Rightarrow> call_record \<Rightarrow> string list \<Rightarrow> string" where
  "chat_text cfg filePath d lines =
     chat_message (callerName_of cfg d) (timeStr_of (fileName_of filePath))
       (durationStr (callDuration d)) (conversationId d) (join_with nl lines)"

definition summary_text :: "config \<Rightarrow> call_record \<Rightarrow> string list \<Rightarrow> string" where
  "summary_text cfg d lines =
     summary_task (callerName_of cfg d) (durationStr (callDuration d)) (join_with nl lines)"

definition inbox_name :: "string \<Rightarrow> string \<Rightarrow> string" where
  "inbox_name filePath callerName =
     inboxFilename (dateStr_of filePath) (timeStr_of (fileName_of filePath)) callerName"

definition inbox_document :: "config \<Rightarrow> string \<Rightarrow> call_record \<Rightarrow> string list \<Rightarrow> string" where
  "inbox_document cfg filePath d lines =
     frontmatter (dateStr_of filePath) (timeStr_of (fileName_of filePath)) (callerName_of cfg d)
       (userPhone d) (durationStr (callDuration d)) (conversationId d) @
     inbox_body (dateStr_of filePath) (timeStr_of (fileName_of filePath)) (callerName_of cfg d)
       (userPhone d) (durationStr (callDuration d)) (join_with nl lines)"

text \<open>
  \<^verbatim>\<open>const inboxDir = cfg.transcripts?.inboxDir;
  if (inboxDir) { const resolvedInbox = inboxDir.replace("~", homedir()); ... }\<close>
\<close>

definition inbox_configured :: "config \<Rightarrow> bool" where
  "inbox_configured cfg = (case inboxDir cfg of None \<Rightarrow> False | Some dir \<Rightarrow> dir \<noteq> [])"

definition resolvedInbox :: "api \<Rightarrow> config \<Rightarrow> string" where
  "resolvedInbox a cfg = replace_first (CHR ''~'') (homedir a) (coalesce (inboxDir cfg) [])"

text \<open>
  The three numbered steps of \<^verbatim>\<open>processTranscript\<close>. The third begins
  \<^verbatim>\<open>const resolvedInbox = inboxDir.replace("~", homedir());
  const timeSlug = timeStr.replace(":", "");
  const callerSlug = callerName.toLowerCase().replace(/[^a-z0-9]/g, "-");\<close>
  and only then enters its \<^verbatim>\<open>try\<close>.
\<close>

definition dispatch ::
  "api \<Rightarrow> config \<Rightarrow> outcomes \<Rightarrow> string \<Rightarrow> call_record \<Rightarrow> string list \<Rightarrow> world \<Rightarrow>
   (string + unit) \<times> world" where
  "dispatch a cfg oc filePath d lines w =
     (let w1 = notify a oc (chat_text cfg filePath d lines) w;
          w2 = summarize a cfg oc (summary_text cfg d lines) w1
      in if inbox_configured cfg
         then (case caller_of cfg d of
                 Inherited k \<Rightarrow> (Inl ''callerName.toLowerCase is not a function'', w2)
               | Name n \<Rightarrow>
                   (Inr (), write_inbox oc (resolvedInbox a cfg) (inbox_name filePath n)
                              (inbox_document cfg filePath d lines) w2))
         else (Inr (), w2))"

definition processTranscript ::
  "api \<Rightarrow> config \<Rightarrow> mailbox \<Rightarrow> outcomes \<Rightarrow> string \<Rightarrow> string \<Rightarrow> world \<Rightarrow> (string + unit) \<times> world" where
  "processTranscript a cfg mb oc transcriptDir filePath w =
     (case mb_read mb filePath of
        Inl err \<Rightarrow> (Inl err, w)
      | Inr d \<Rightarrow>
          (let lines = build_lines (callerName_of cfg d) (transcript_of d)
           in if lines = [] then (Inr (), markProcessed transcriptDir filePath w)
              else (case dispatch a cfg oc filePath d lines w of
                      (Inl err, w') \<Rightarrow> (Inl err, w')
                    | (Inr u, w') \<Rightarrow>
                        (Inr (),
                         emit (Logger_info (''[alfred-talk] Processed: '' @ conversationId d @
                                 '' ('' @ callerName_of cfg d @ '', '' @
                                 durationStr (callDuration d) @ '')''))
                           (markProcessed transcriptDir filePath w')))))"

subsection \<open>The poller\<close>

text \<open>
  The inner loop of \<^verbatim>\<open>scanAndProcessTranscripts\<close> over the \<^verbatim>\<open>.json\<close> files of one bucket, in
  the order \<^verbatim>\<open>readdirSync\<close> gave them; \<open>visit\<close> is its body:
  \<^verbatim>\<open>for (const file of entries) {
    const filePath = join(datePath, file);
    if (processed.has(filePath)) continue;
    try { await processTranscript(api, cfg, transcriptDir, filePath); }
    catch (err: any) { api.logger.warn(`[alfred-talk] Failed to process ${file}: ${err.message}`); }
  }\<close>
  \<open>processed\<close> is the set loaded when the scan began; \<open>env\<close> tells how the
  surroundings answer the calls made for each path.
\<close>

definition visit ::
  "api \<Rightarrow> config \<Rightarrow> mailbox \<Rightarrow> (string \<Rightarrow> outcomes) \<Rightarrow> string \<Rightarrow> string set \<Rightarrow> string \<Rightarrow>
   string \<Rightarrow> world \<Rightarrow> world" where
  "visit a cfg mb env transcriptDir processed datePath file w =
     (let filePath = join datePath file
      in if filePath \<in> processed then w
         else (case processTranscript a cfg mb (env filePath) transcriptDir filePath w of
                 (Inl err, w') \<Rightarrow>
                   emit (Logger_warn (''[alfred-talk] Failed to process '' @ file @ '': '' @ err)) w'
               | (Inr u, w') \<Rightarrow> w'))"

fun process_entries ::
  "api \<Rightarrow> config \<Rightarrow> mailbox \<Rightarrow> (string \<Rightarrow> outcomes) \<Rightarrow> string \<Rightarrow> string set \<Rightarrow> string \<Rightarrow>
   string list \<Rightarrow> world \<Rightarrow> world" where
  "process_entries a cfg mb env transcriptDir processed datePath [] w = w"
| "process_entries a cfg mb env transcriptDir processed datePath (file # files) w =
     process_entries a cfg mb env transcriptDir processed datePath files
       (visit a cfg mb env transcriptDir processed datePath file w)"

text \<open>
  The outer loop over the names in the mailbox directory, already sorted and reversed:
  \<^verbatim>\<open>const datePath = join(transcriptDir, dateDir);
  if (dateDir.startsWith(".")) continue;
  let entries: string[];
  try { entries = readdirSync(datePath).filter((f: string) => f.endsWith(".json")); }
  catch { continue; }\<close>
\<close>

fun scan_buckets ::
  "api \<Rightarrow> config \<Rightarrow> mailbox \<Rightarrow> (string \<Rightarrow> outcomes) \<Rightarrow> string \<Rightarrow> string set \<Rightarrow>
   string list \<Rightarrow> world \<Rightarrow> world" where
  "scan_buckets a cfg mb env transcriptDir processed [] w = w"
| "scan_buckets a cfg mb env transcriptDir processed (dateDir # dateDirs) w =
     (let datePath = join transcriptDir dateDir
      in if startsWith dateDir ''.''
         then scan_buckets a cfg mb env transcriptDir processed dateDirs w
         else (case mb_readdir mb datePath of
                 Inl err \<Rightarrow> scan_buckets a cfg mb env transcriptDir processed dateDirs w
               | Inr names \<Rightarrow>
                   scan_buckets a cfg mb env transcriptDir processed dateDirs
                     (process_entries a cfg mb env transcriptDir processed datePath
                        (filter (\<lambda>f. endsWith f ''.json'') names) w)))"

text \<open>
  \<^verbatim>\<open>async function scanAndProcessTranscripts(api, cfg, transcriptDir) {
    if (!existsSync(transcriptDir)) return;
    const processed = loadProcessed(transcriptDir);
    for (const dateDir of readdirSync(transcriptDir).sort().reverse()) { ... }
  }\<close>
  \<^verbatim>\<open>readdirSync(transcriptDir)\<close> is outside every \<^verbatim>\<open>try\<close> of the function: when it throws, the
  scan throws.
\<close>

definition scanAndProcessTranscripts ::
  "api \<Rightarrow> config \<Rightarrow> mailbox \<Rightarrow> (string \<Rightarrow> outcomes) \<Rightarrow> string \<Rightarrow> world \<Rightarrow> (string + unit) \<times> world" where
  "scanAndProcessTranscripts a cfg mb env transcriptDir w =
     (if \<not> mb_exists mb transcriptDir then (Inr (), w)
      else (case mb_readdir mb transcriptDir of
              Inl err \<Rightarrow> (Inl err, w)
            | Inr names \<Rightarrow>
                (Inr (), scan_buckets a cfg mb env transcriptDir (loadProcessed transcriptDir w)
                           (rev (sort names)) w)))"

text \<open>
  One tick of the watcher started by \<^verbatim>\<open>register\<close>:
  \<^verbatim>\<open>try { await scanAndProcessTranscripts(api, c, tDir); }
  catch (err: any) { api.logger.warn(`[alfred-talk] Transcript scan error: ${err.message}`); }\<close>
\<close>

definition tick :: "api \<Rightarrow> config \<Rightarrow> mailbox \<Rightarrow> (string \<Rightarrow> outcomes) \<Rightarrow> string \<Rightarrow> world \<Rightarrow> world" where
  "tick a cfg mb env transcriptDir w =
     (case scanAndProcessTranscripts a cfg mb env transcriptDir w of
        (Inl err, w') \<Rightarrow> emit (Logger_warn (''[alfred-talk] Transcript scan error: '' @ err)) w'
      | (Inr u, w') \<Rightarrow> w')"

subsection \<open>The transcript query\<close>

text \<open>
  \<^verbatim>\<open>JSON.stringify\<close> of a string: the quote and the backslash are escaped, a control
  character has its short escape or \<^verbatim>\<open>\u00XX\<close>, every other character stands for itself.
\<close>

definition hex_digit :: "nat \<Rightarrow> char" where
  "hex_digit d = ''0123456789abcdef'' ! d"

definition json_escape :: "char \<Rightarrow> string" where
  "json_escape c =
     (if c = CHR 0x22 then [CHR 0x5C, CHR 0x22]
      else if c = CHR 0x5C then [CHR 0x5C, CHR 0x5C]
      else if c = CHR 0x08 then [CHR 0x5C, CHR ''b'']
      else if c = CHR 0x09 then [CHR 0x5C, CHR ''t'']
      else if c = CHR 0x0A then [CHR 0x5C, CHR ''n'']
      else if c = CHR 0x0C then [CHR 0x5C, CHR ''f'']
      else if c = CHR 0x0D then [CHR 0x5C, CHR ''r'']
      else if c < CHR 0x20
      then [CHR 0x5C, CHR ''u'', CHR ''0'', CHR ''0'',
            hex_digit (of_char c div 16), hex_digit (of_char c mod 16)]
      else [c])"

definition json_string :: "string \<Rightarrow> string" where
  "json_string s = [CHR 0x22] @ concat (map json_escape s) @ [CHR 0x22]"

text \<open>
  The loop over the turns in \<^verbatim>\<open>getTranscript\<close>:
  \<^verbatim>\<open>let role = t.role ?? "?";
  if (role === "agent") role = "Alfred";
  else if (role === "user") { const phone = data?.data?.user_id ?? data?.user_id ?? "";
                              role = resolveCallerName(phone, contacts); }
  const ts = t.time_in_call_secs ?? 0;
  const m = Math.floor(ts / 60);
  const s = Math.floor(ts % 60);
  const msg = (t.message ?? "").trim();
  if (msg) lines.push(`[${m}:${String(s).padStart(2, "0")}] ${role}: ${msg}`);\<close>
\<close>

fun timestamped_lines :: "string \<Rightarrow> turn list \<Rightarrow> string list" where
  "timestamped_lines callerName [] = []"
| "timestamped_lines callerName (t # ts) =
     (let r = speaker_label callerName t;
          secs = coalesce (time_in_call_secs t) 0;
          msg = trim (coalesce (message t) [])
      in if msg \<noteq> []
         then (''['' @ show_int (secs div 60) @ '':'' @ padStart2 (show_int (js_rem secs 60)) @ ''] '' @
               r @ '': '' @ msg) # timestamped_lines callerName ts
         else timestamped_lines callerName ts)"

text \<open>
  \<^verbatim>\<open>return text(JSON.stringify({ conversationId, caller: resolveCallerName(...),
                                 transcript: lines.join("\n") }));\<close>
  \<^verbatim>\<open>text(t)\<close> wraps the string as the tool's result; the model keeps the string.
\<close>

text \<open>
  The property \<^verbatim>\<open>caller\<close> in the result: \<^verbatim>\<open>JSON.stringify\<close> writes a string quoted, leaves a
  property out whose value is a function, and writes the prototype object, which has no
  enumerable property, as \<^verbatim>\<open>{}\<close>.
\<close>

definition caller_property :: "caller \<Rightarrow> string" where
  "caller_property c =
     (case c of
        Name n \<Rightarrow> json_string ''caller'' @ '':'' @ json_string n @ '',''
      | Inherited k \<Rightarrow>
          if k = ''__proto__'' then json_string ''caller'' @ '':'' @ ''{}'' @ '','' else [])"

definition transcript_json :: "string \<Rightarrow> (string \<rightharpoonup> string) \<Rightarrow> call_record \<Rightarrow> string" where
  "transcript_json convId directory d =
     (let callerName = resolveCallerName (userPhone d) directory
      in ''{'' @ json_string ''conversationId'' @ '':'' @ json_string convId @ '','' @
         caller_property callerName @
         json_string ''transcript'' @ '':'' @
         json_string (join_with nl (timestamped_lines (caller_text callerName) (transcript_of d))) @
         ''}'')"

text \<open>
  The inner loop of \<^verbatim>\<open>getTranscript\<close> stops at the first name of the bucket that contains
  the identifier and ends in \<^verbatim>\<open>.json\<close>, and reads that file:
  \<^verbatim>\<open>for (const file of readdirSync(datePath)) {
    if (file.includes(conversationId) && file.endsWith(".json")) {
      const data = JSON.parse(readFileSync(join(datePath, file), "utf-8")); ... return text(...);
    } }\<close>
\<close>

fun first_match :: "string \<Rightarrow> string list \<Rightarrow> string option" where
  "first_match convId [] = None"
| "first_match convId (file # files) =
     (if includes_str file convId \<and> endsWith file ''.json'' then Some file
      else first_match convId files)"

text \<open>
  The outer loop, over the sorted and reversed names of the mailbox directory. Its
  \<^verbatim>\<open>try\<close> encloses the inner loop, so a bucket that cannot be listed, or whose first match
  cannot be read or parsed, is left for the next bucket.
\<close>

fun search_buckets ::
  "mailbox \<Rightarrow> string \<Rightarrow> string \<Rightarrow> (string \<rightharpoonup> string) \<Rightarrow> string list \<Rightarrow> string" where
  "search_buckets mb transcriptDir convId directory [] = ''Transcript not found: '' @ convId"
| "search_buckets mb transcriptDir convId directory (dateDir # dateDirs) =
     (if startsWith dateDir ''.''
      then search_buckets mb transcriptDir convId directory dateDirs
      else (let datePath = join transcriptDir dateDir
            in case mb_readdir mb datePath of
                 Inl err \<Rightarrow> search_buckets mb transcriptDir convId directory dateDirs
               | Inr names \<Rightarrow>
                   (case first_match convId names of
                      None \<Rightarrow> search_buckets mb transcriptDir convId directory dateDirs
                    | Some file \<Rightarrow>
                        (case mb_read mb (join datePath file) of
                           Inl err \<Rightarrow> search_buckets mb transcriptDir convId directory dateDirs
                         | Inr d \<Rightarrow> transcript_json convId directory d))))"

text \<open>
  \<^verbatim>\<open>function getTranscript(transcriptDir, conversationId, contacts) {
    if (!existsSync(transcriptDir)) return text("Transcript directory not found.");
    for (const dateDir of readdirSync(transcriptDir).sort().reverse()) { ... }
    return text(`Transcript not found: ${conversationId}`);
  }\<close>
\<close>

definition getTranscript ::
  "mailbox \<Rightarrow> string \<Rightarrow> string \<Rightarrow> (string \<rightharpoonup> string) \<Rightarrow> string + string" where
  "getTranscript mb transcriptDir convId directory =
     (if \<not> mb_exists mb transcriptDir then Inr ''Transcript directory not found.''
      else (case mb_readdir mb transcriptDir of
              Inl err \<Rightarrow> Inl err
            | Inr names \<Rightarrow> Inr (search_buckets mb transcriptDir convId directory (rev (sort names)))))"

subsection \<open>Observing a run\<close>

text \<open>The events a step added to the trace, and the kinds of event that reach a sink.\<close>

definition new_events :: "world \<Rightarrow> world \<Rightarrow> event list" where
  "new_events w w' = drop (length (trace w)) (trace w')"

fun is_chat_call :: "event \<Rightarrow> bool" where
  "is_chat_call (Invoke_message m) = True"
| "is_chat_call e = False"

fun is_summary_call :: "event \<Rightarrow> bool" where
  "is_summary_call (Invoke_sessions_spawn task model) = True"
| "is_summary_call e = False"

fun is_inbox_call :: "event \<Rightarrow> bool" where
  "is_inbox_call (Mkdir_sync dir) = True"
| "is_inbox_call (Write_file_sync path content) = True"
| "is_inbox_call e = False"

definition is_sink_call :: "event \<Rightarrow> bool" where
  "is_sink_call e \<longleftrightarrow> is_chat_call e \<or> is_summary_call e \<or> is_inbox_call e"

definition inbox_events :: "outcomes \<Rightarrow> bool \<Rightarrow> string \<Rightarrow> string \<Rightarrow> string \<Rightarrow> event list" where
  "inbox_events oc present dir filename content =
     (let written = Write_file_sync (join dir filename) content #
            (case write_result oc of
               None \<Rightarrow> [Logger_info (''[alfred-talk] Wrote to vault inbox: '' @ filename)]
             | Some err \<Rightarrow> [Logger_warn (''[alfred-talk] Inbox write failed: '' @ err)])
      in if present then written
         else Mkdir_sync dir #
              (case mkdir_result oc of
                 Some err \<Rightarrow> [Logger_warn (''[alfred-talk] Inbox write failed: '' @ err)]
               | None \<Rightarrow> written))"

text \<open>The events of the two tool sinks, which are called whatever the caller is.\<close>

definition tool_events ::
  "api \<Rightarrow> config \<Rightarrow> outcomes \<Rightarrow> string \<Rightarrow> call_record \<Rightarrow> string list \<Rightarrow> event list" where
  "tool_events a cfg oc p d ls =
     (if tools_invoke a
      then Invoke_message (chat_text cfg p d ls) #
           (case message_result oc of None \<Rightarrow> []
            | Some e \<Rightarrow> [Logger_warn (''[alfred-talk] Notification failed: '' @ e)])
      else []) @
     (if tools_invoke a
      then Invoke_sessions_spawn (summary_text cfg d ls)
             (coalesce (summaryModel cfg) ''anthropic/claude-haiku-4-5'') #
           (case spawn_result oc of None \<Rightarrow> []
            | Some e \<Rightarrow> [Logger_warn (''[alfred-talk] Summary failed: '' @ e)])
      else [])"

text \<open>
  The watcher runs \<^const>\<open>tick\<close> again and again; \<open>envs\<close> gives the surroundings of each run.
\<close>

fun run_ticks ::
  "api \<Rightarrow> config \<Rightarrow> mailbox \<Rightarrow> (string \<Rightarrow> outcomes) list \<Rightarrow> string \<Rightarrow> world \<Rightarrow> world" where
  "run_ticks a cfg mb [] transcriptDir w = w"
| "run_ticks a cfg mb (env # envs) transcriptDir w =
     run_ticks a cfg mb envs transcriptDir (tick a cfg mb env transcriptDir w)"

text \<open>
  An entry of the mailbox, as the scan meets it: a name ending in \<^verbatim>\<open>.json\<close> in the listing
  of a bucket whose own name does not begin with a dot.
\<close>

definition bucket_files :: "mailbox \<Rightarrow> string \<Rightarrow> string \<Rightarrow> string list" where
  "bucket_files mb transcriptDir dateDir =
     (if startsWith dateDir ''.'' then []
      else (case mb_readdir mb (join transcriptDir dateDir) of
              Inl err \<Rightarrow> []
            | Inr names \<Rightarrow> filter (\<lambda>f. endsWith f ''.json'') names))"

definition mailbox_entries :: "mailbox \<Rightarrow> string \<Rightarrow> string list" where
  "mailbox_entries mb transcriptDir =
     (if \<not> mb_exists mb transcriptDir then []
      else (case mb_readdir mb transcriptDir of
              Inl err \<Rightarrow> []
            | Inr names \<Rightarrow>
                concat (map (\<lambda>d. map (join (join transcriptDir d)) (bucket_files mb transcriptDir d))
                          (rev (sort names)))))"

text \<open>
  Whether processing an entry throws, and with which message. It does not depend on how
  the sinks answer: an entry fails when it cannot be read, or when it has a line, the
  inbox is configured and the caller's name is not a string.
\<close>

definition failure :: "config \<Rightarrow> mailbox \<Rightarrow> string \<Rightarrow> string option" where
  "failure cfg mb filePath =
     (case mb_read mb filePath of
        Inl err \<Rightarrow> Some err
      | Inr d \<Rightarrow>
          (case caller_of cfg d of
             Inherited k \<Rightarrow>
               if build_lines (callerName_of cfg d) (transcript_of d) \<noteq> [] \<and> inbox_configured cfg
               then Some ''callerName.toLowerCase is not a function'' else None
           | Name n \<Rightarrow> None))"

text \<open>The warning with which the scan reports an entry whose processing threw.\<close>

definition failed_to_process :: "string \<Rightarrow> string \<Rightarrow> event" where
  "failed_to_process file err =
     Logger_warn (''[alfred-talk] Failed to process '' @ file @ '': '' @ err)"

text \<open>A text in which the pattern \<^verbatim>\<open><[^>]+>\<close> matches somewhere.\<close>

fun has_tag :: "string \<Rightarrow> bool" where
  "has_tag [] = False"
| "has_tag (c # cs) = ((c = CHR ''<'' \<and> opens_tag cs) \<or> has_tag cs)"

subsection \<open>A mailbox to run the pipeline on\<close>

text \<open>
  Three buckets and the ledger file. The bucket of 1 March lists its files with the
  earlier call first; it holds a call in the nested shape, a call in the flat shape, a
  file that is not JSON and a file that is no transcript. The bucket of 2 March holds a
  later call whose identifier begins like that of the first; the bucket of 28 February
  holds a call in which nothing was said.
\<close>

definition ex_call :: call_record where
  "ex_call = \<lparr>user_id = None, conversation_id = None, transcript = None, metadata = None,
     data = Some \<lparr>user_id = Some ''+34612345678'', conversation_id = Some ''abc'',
       transcript = Some
         [\<lparr>role = Some ''agent'', message = Some ''Hola <break/> Maria'', time_in_call_secs = Some 0\<rparr>,
          \<lparr>role = Some ''user'', message = Some ''None'', time_in_call_secs = Some 4\<rparr>,
          \<lparr>role = Some ''user'', message = Some '' Paella '', time_in_call_secs = Some 65\<rparr>],
       metadata = Some \<lparr>call_duration_secs = Some 125\<rparr>\<rparr>\<rparr>"

definition ex_flat :: call_record where
  "ex_flat = \<lparr>user_id = Some ''+19995550000'', conversation_id = Some ''xyz'',
     transcript = Some [\<lparr>role = Some ''user'', message = Some ''Hello'', time_in_call_secs = Some 2\<rparr>],
     metadata = Some \<lparr>call_duration_secs = Some 125\<rparr>, data = None\<rparr>"

definition ex_later :: call_record where
  "ex_later = \<lparr>user_id = None, conversation_id = None, transcript = None, metadata = None,
     data = Some \<lparr>user_id = Some ''+19995550000'', conversation_id = Some ''abc2'',
       transcript = Some [\<lparr>role = Some ''agent'', message = Some ''Again'', time_in_call_secs = Some 1\<rparr>],
       metadata = None\<rparr>\<rparr>"

definition ex_silent :: call_record where
  "ex_silent = \<lparr>user_id = Some ''+34612345678'', conversation_id = Some ''hup'',
     transcript = Some
       [\<lparr>role = Some ''agent'', message = Some ''<break/>'', time_in_call_secs = Some 0\<rparr>,
        \<lparr>role = Some ''user'', message = Some '' none '', time_in_call_secs = Some 1\<rparr>,
        \<lparr>role = Some ''user'', message = None, time_in_call_secs = None\<rparr>],
     metadata = None, data = None\<rparr>"

definition ex_mailbox :: mailbox where
  "ex_mailbox = \<lparr>
     mb_exists = (\<lambda>p. p = ''/t''),
     mb_readdir = (\<lambda>p.
       if p = ''/t'' then Inr [''2024-02-28'', ''.processed'', ''2024-03-02'', ''2024-03-01'']
       else if p = ''/t/2024-03-02'' then Inr [''08-05-00_abc2.json'']
       else if p = ''/t/2024-03-01''
       then Inr [''14-30-00_abc.json'', ''15-45-10_xyz.json'', ''16-00-00_bad.json'', ''notes.txt'']
       else if p = ''/t/2024-02-28'' then Inr [''09-15-00_hup.json'']
       else Inl ''ENOTDIR: not a directory''),
     mb_read = (\<lambda>p.
       if p = ''/t/2024-03-02/08-05-00_abc2.json'' then Inr ex_later
       else if p = ''/t/2024-03-01/14-30-00_abc.json'' then Inr ex_call
       else if p = ''/t/2024-03-01/15-45-10_xyz.json'' then Inr ex_flat
       else if p = ''/t/2024-02-28/09-15-00_hup.json'' then Inr ex_silent
       else Inl ''Unexpected end of JSON input'')\<rparr>"

text \<open>
  A second mailbox, with one bucket. Its first file is a call from a caller whose
  identifier is the word \<^verbatim>\<open>constructor\<close>, which is no key of the directory; the second is
  the flat call from above, the third is not JSON.
\<close>

definition ex_odd :: call_record where
  "ex_odd = \<lparr>user_id = Some ''constructor'', conversation_id = Some ''odd'',
     transcript = Some [\<lparr>role = Some ''user'', message = Some ''Hello'', time_in_call_secs = Some 2\<rparr>],
     metadata = None, data = None\<rparr>"

definition ex_mailbox2 :: mailbox where
  "ex_mailbox2 = \<lparr>
     mb_exists = (\<lambda>p. p = ''/m''),
     mb_readdir = (\<lambda>p.
       if p = ''/m'' then Inr [''2024-03-03'']
       else if p = ''/m/2024-03-03''
       then Inr [''07-00-00_odd.json'', ''07-30-00_xyz.json'', ''08-00-00_bad.json'']
       else Inl ''ENOTDIR: not a directory''),
     mb_read = (\<lambda>p.
       if p = ''/m/2024-03-03/07-00-00_odd.json'' then Inr ex_odd
       else if p = ''/m/2024-03-03/07-30-00_xyz.json'' then Inr ex_flat
       else Inl ''Unexpected end of JSON input'')\<rparr>"

definition ex_config :: config where
  "ex_config = \<lparr>contacts = [''+34612345678'' \<mapsto> ''Mom''], inboxDir = Some ''~/vault/inbox'',
     summaryModel = None\<rparr>"

definition ex_api :: api where
  "ex_api = \<lparr>tools_invoke = True, homedir = ''/home/u''\<rparr>"

definition ex_world :: world where
  "ex_world = \<lparr>processed_log = (\<lambda>p. []), fs_dirs = {}, fs_files = Map.empty, trace = []\<rparr>"

definition all_succeed :: outcomes where
  "all_succeed = \<lparr>message_result = None, spawn_result = None, mkdir_result = None,
     write_result = None\<rparr>"

definition all_fail :: outcomes where
  "all_fail = \<lparr>message_result = Some ''offline'', spawn_result = Some ''no model'',
     mkdir_result = Some ''EACCES'', write_result = Some ''ENOSPC''\<rparr>"

section \<open>Facts about one entry\<close>

lemma join_not_empty: "join a b \<noteq> []"
  by (simp add: join_def)

lemma processed_log_emit: "processed_log (emit e w) = processed_log w"
  by (simp add: emit_def)

lemma processed_log_notify: "processed_log (notify a oc m w) = processed_log w"
  by (simp add: notify_def emit_def split: option.splits)

lemma processed_log_summarize: "processed_log (summarize a cfg oc m w) = processed_log w"
  by (simp add: summarize_def emit_def Let_def split: option.splits)

lemma processed_log_write_inbox: "processed_log (write_inbox oc r f c w) = processed_log w"
  by (simp add: write_inbox_def inbox_failed_def emit_def Let_def split: option.splits)

lemma processed_log_dispatch:
  "processed_log (snd (dispatch a cfg oc p d ls w)) = processed_log w"
  by (simp add: dispatch_def Let_def processed_log_notify processed_log_summarize
      processed_log_write_inbox split: caller.splits)

text \<open>Whether the dispatch throws is decided by the configuration and the caller.\<close>

lemma fst_dispatch:
  "fst (dispatch a cfg oc p d ls w) =
     (case caller_of cfg d of
        Inherited k \<Rightarrow>
          if inbox_configured cfg then Inl ''callerName.toLowerCase is not a function''
          else Inr ()
      | Name n \<Rightarrow> Inr ())"
  by (simp add: dispatch_def Let_def split: caller.splits)

lemma processTranscript_throws:
  "mb_read mb p = Inl err \<Longrightarrow> processTranscript a cfg mb oc t p w = (Inl err, w)"
  by (simp add: processTranscript_def)

lemma processTranscript_dispatched:
  assumes "mb_read mb p = Inr d"
    and "build_lines (callerName_of cfg d) (transcript_of d) \<noteq> []"
  shows "processTranscript a cfg mb oc t p w =
     (case dispatch a cfg oc p d (build_lines (callerName_of cfg d) (transcript_of d)) w of
        (Inl err, w') \<Rightarrow> (Inl err, w')
      | (Inr u, w') \<Rightarrow>
          (Inr (),
           emit (Logger_info (''[alfred-talk] Processed: '' @ conversationId d @
                   '' ('' @ callerName_of cfg d @ '', '' @ durationStr (callDuration d) @ '')''))
             (markProcessed t p w')))"
  using assms by (simp add: processTranscript_def Let_def)

lemma processTranscript_result:
  "fst (processTranscript a cfg mb oc t p w) =
     (case failure cfg mb p of Some err \<Rightarrow> Inl err | None \<Rightarrow> Inr ())"
proof (cases "mb_read mb p")
  case (Inl err)
  then show ?thesis by (simp add: processTranscript_throws failure_def)
next
  case (Inr d)
  show ?thesis
  proof (cases "build_lines (callerName_of cfg d) (transcript_of d) = []")
    case True
    with Inr show ?thesis
      by (simp add: processTranscript_def Let_def failure_def split: caller.splits)
  next
    case False
    obtain r w' where
      dp: "dispatch a cfg oc p d (build_lines (callerName_of cfg d) (transcript_of d)) w = (r, w')"
      by (cases "dispatch a cfg oc p d (build_lines (callerName_of cfg d) (transcript_of d)) w")
    have "r = (case caller_of cfg d of
        Inherited k \<Rightarrow>
          if inbox_configured cfg then Inl ''callerName.toLowerCase is not a function''
          else Inr ()
      | Name n \<Rightarrow> Inr ())"
      using fst_dispatch [of a cfg oc p d "build_lines (callerName_of cfg d) (transcript_of d)" w] dp
      by simp
    then show ?thesis
      using Inr False dp
      by (simp add: processTranscript_dispatched [OF Inr False] failure_def split: caller.splits)
  qed
qed

lemma processTranscript_returns:
  "failure cfg mb p = None \<Longrightarrow> fst (processTranscript a cfg mb oc t p w) = Inr ()"
  by (simp add: processTranscript_result)

lemma processTranscript_fails:
  "failure cfg mb p = Some err \<Longrightarrow> fst (processTranscript a cfg mb oc t p w) = Inl err"
  by (simp add: processTranscript_result)

text \<open>The entry is marked exactly when processing it returns.\<close>

lemma processTranscript_log:
  "processed_log (snd (processTranscript a cfg mb oc t p w)) =
   (if failure cfg mb p = None
    then (processed_log w)(processedFilePath t := processed_log w (processedFilePath t) @ [p])
    else processed_log w)"
proof (cases "mb_read mb p")
  case (Inl err)
  then show ?thesis by (simp add: processTranscript_throws failure_def)
next
  case (Inr d)
  show ?thesis
  proof (cases "build_lines (callerName_of cfg d) (transcript_of d) = []")
    case True
    with Inr show ?thesis
      by (simp add: processTranscript_def Let_def failure_def markProcessed_def
          split: caller.splits)
  next
    case False
    obtain r w' where
      dp: "dispatch a cfg oc p d (build_lines (callerName_of cfg d) (transcript_of d)) w = (r, w')"
      by (cases "dispatch a cfg oc p d (build_lines (callerName_of cfg d) (transcript_of d)) w")
    have r: "r = (case caller_of cfg d of
        Inherited k \<Rightarrow>
          if inbox_configured cfg then Inl ''callerName.toLowerCase is not a function''
          else Inr ()
      | Name n \<Rightarrow> Inr ())"
      using fst_dispatch [of a cfg oc p d "build_lines (callerName_of cfg d) (transcript_of d)" w] dp
      by simp
    have l: "processed_log w' = processed_log w"
      using processed_log_dispatch
        [of a cfg oc p d "build_lines (callerName_of cfg d) (transcript_of d)" w] dp
      by simp
    show ?thesis
      using Inr False dp r l
      by (simp add: processTranscript_dispatched [OF Inr False] failure_def markProcessed_def
          processed_log_emit split: caller.splits)
  qed
qed

text \<open>What each sink adds to the trace depends on its own outcome only.\<close>

lemma trace_notify:
  "trace (notify a oc m w) = trace w @
     (if tools_invoke a
      then Invoke_message m #
           (case message_result oc of None \<Rightarrow> []
            | Some e \<Rightarrow> [Logger_warn (''[alfred-talk] Notification failed: '' @ e)])
      else [])"
  by (simp add: notify_def emit_def split: option.splits)

lemma trace_summarize:
  "trace (summarize a cfg oc task w) = trace w @
     (if tools_invoke a
      then Invoke_sessions_spawn task (coalesce (summaryModel cfg) ''anthropic/claude-haiku-4-5'') #
           (case spawn_result oc of None \<Rightarrow> []
            | Some e \<Rightarrow> [Logger_warn (''[alfred-talk] Summary failed: '' @ e)])
      else [])"
  by (simp add: summarize_def emit_def Let_def split: option.splits)

lemma trace_write_inbox:
  "trace (write_inbox oc r f c w) = trace w @
     (if r \<in> fs_dirs w
      then Write_file_sync (join r f) c #
           (case write_result oc of
              None \<Rightarrow> [Logger_info (''[alfred-talk] Wrote to vault inbox: '' @ f)]
            | Some e \<Rightarrow> [Logger_warn (''[alfred-talk] Inbox write failed: '' @ e)])
      else Mkdir_sync r #
           (case mkdir_result oc of
              Some e \<Rightarrow> [Logger_warn (''[alfred-talk] Inbox write failed: '' @ e)]
            | None \<Rightarrow>
                Write_file_sync (join r f) c #
                (case write_result oc of
                   None \<Rightarrow> [Logger_info (''[alfred-talk] Wrote to vault inbox: '' @ f)]
                 | Some e \<Rightarrow> [Logger_warn (''[alfred-talk] Inbox write failed: '' @ e)])))"
  by (simp add: write_inbox_def inbox_failed_def emit_def Let_def split: option.splits)

lemma fs_dirs_notify: "fs_dirs (notify a oc m w) = fs_dirs w"
  by (simp add: notify_def emit_def split: option.splits)

lemma fs_dirs_summarize: "fs_dirs (summarize a cfg oc m w) = fs_dirs w"
  by (simp add: summarize_def emit_def Let_def split: option.splits)

lemma new_events_append: "trace w' = trace w @ es \<Longrightarrow> new_events w w' = es"
  by (simp add: new_events_def)

lemma trace_dispatch:
  "trace (snd (dispatch a cfg oc p d ls w)) = trace w @ tool_events a cfg oc p d ls @
       (if inbox_configured cfg
        then (case caller_of cfg d of
                Name n \<Rightarrow>
                  inbox_events oc (resolvedInbox a cfg \<in> fs_dirs w) (resolvedInbox a cfg)
                    (inbox_name p n) (inbox_document cfg p d ls)
              | Inherited k \<Rightarrow> [])
        else [])"
  by (simp add: dispatch_def Let_def trace_notify trace_summarize trace_write_inbox
      fs_dirs_notify fs_dirs_summarize inbox_events_def tool_events_def split: caller.splits)


section \<open>Sink failures and the ledger\<close>

text \<open>
  When the caller's name is a string, or no inbox is configured, an entry that parses and
  has a line is marked however the surroundings answer the calls of the sinks: whether a
  sink is called does not depend on the outcomes, and each failure is logged as a
  warning of its own.
\<close>

lemma sink_failures_isolated_for_a_text_name:
  assumes "mb_read mb filePath = Inr d"
    and "build_lines (callerName_of cfg d) (transcript_of d) \<noteq> []"
    and "inbox_configured cfg \<Longrightarrow> caller_of cfg d = Name n"
  shows "(let w' = snd (processTranscript a cfg mb oc t filePath w); es = new_events w w'
     in fst (processTranscript a cfg mb oc t filePath w) = Inr () \<and>
        processed_log w' (processedFilePath t) = processed_log w (processedFilePath t) @ [filePath] \<and>
        list_ex is_chat_call es = tools_invoke a \<and>
        list_ex is_summary_call es = tools_invoke a \<and>
        list_ex is_inbox_call es = inbox_configured cfg \<and>
        (\<forall>e. tools_invoke a \<and> message_result oc = Some e \<longrightarrow>
             Logger_warn (''[alfred-talk] Notification failed: '' @ e) \<in> set es) \<and>
        (\<forall>e. tools_invoke a \<and> spawn_result oc = Some e \<longrightarrow>
             Logger_warn (''[alfred-talk] Summary failed: '' @ e) \<in> set es) \<and>
        (\<forall>e. inbox_configured cfg \<and> resolvedInbox a cfg \<notin> fs_dirs w \<and> mkdir_result oc = Some e \<longrightarrow>
             Logger_warn (''[alfred-talk] Inbox write failed: '' @ e) \<in> set es) \<and>
        (\<forall>e. inbox_configured cfg \<and> (resolvedInbox a cfg \<in> fs_dirs w \<or> mkdir_result oc = None) \<and>
             write_result oc = Some e \<longrightarrow>
             Logger_warn (''[alfred-talk] Inbox write failed: '' @ e) \<in> set es))"
proof -
  let ?ls = "build_lines (callerName_of cfg d) (transcript_of d)"
  let ?w' = "snd (processTranscript a cfg mb oc t filePath w)"
  have ok: "failure cfg mb filePath = None"
    using assms by (auto simp: failure_def split: caller.splits)
  obtain r w1 where dp: "dispatch a cfg oc filePath d ?ls w = (r, w1)"
    by (cases "dispatch a cfg oc filePath d ?ls w")
  have "r = Inr ()"
    using fst_dispatch [of a cfg oc filePath d ?ls w] dp assms(3)
    by (auto split: caller.splits)
  then have tr: "trace ?w' = trace (snd (dispatch a cfg oc filePath d ?ls w)) @
            [Logger_info (''[alfred-talk] Processed: '' @ conversationId d @ '' ('' @
               callerName_of cfg d @ '', '' @ durationStr (callDuration d) @ '')'')]"
    using dp by (simp add: processTranscript_dispatched [OF assms(1,2)] emit_def markProcessed_def)
  have es: "new_events w ?w' = drop (length (trace w)) (trace ?w')"
    by (simp add: new_events_def)
  have r: "fst (processTranscript a cfg mb oc t filePath w) = Inr ()"
    using ok by (rule processTranscript_returns)
  have l: "processed_log ?w' (processedFilePath t) = processed_log w (processedFilePath t) @ [filePath]"
    using ok by (simp add: processTranscript_log)
  show ?thesis
  proof (cases "inbox_configured cfg")
    case True
    then have "caller_of cfg d = Name n" by (rule assms(3))
    then show ?thesis
      unfolding Let_def es tr trace_dispatch
      using r l True
      by (auto simp: inbox_events_def tool_events_def Let_def split: option.splits)
  next
    case False
    then show ?thesis
      unfolding Let_def es tr trace_dispatch
      using r l
      by (auto simp: tool_events_def Let_def split: option.splits)
  qed
qed

text \<open>
  C1. The claim fails for an entry whose caller is no string. The file
  \<^verbatim>\<open>07-00-00_odd.json\<close> parses and its dialogue has a line; the caller's identifier is
  \<^verbatim>\<open>constructor\<close>, which the directory does not map, so \<^verbatim>\<open>contacts["constructor"]\<close> is the
  function every object inherits. With an inbox configured and every sink answering
  without fault, \<^const>\<open>processTranscript\<close> sends the chat message, spawns the summariser,
  throws at \<^verbatim>\<open>callerName.toLowerCase()\<close>, never reaches the inbox writer and leaves the ledger
  empty.
\<close>

theorem processTranscript_throws_after_two_sinks:
  "mb_read ex_mailbox2 ''/m/2024-03-03/07-00-00_odd.json'' = Inr ex_odd \<and>
   userPhone ex_odd = ''constructor'' \<and>
   contacts ex_config ''constructor'' = None \<and>
   caller_of ex_config ex_odd = Inherited ''constructor'' \<and>
   build_lines (callerName_of ex_config ex_odd) (transcript_of ex_odd) =
     [''function Object() { [native code] }: Hello''] \<and>
   inbox_configured ex_config \<and>
   fst (processTranscript ex_api ex_config ex_mailbox2 all_succeed ''/m''
          ''/m/2024-03-03/07-00-00_odd.json'' ex_world) =
     Inl ''callerName.toLowerCase is not a function'' \<and>
   map is_chat_call (filter is_sink_call (new_events ex_world
     (snd (processTranscript ex_api ex_config ex_mailbox2 all_succeed ''/m''
          ''/m/2024-03-03/07-00-00_odd.json'' ex_world)))) = [True, False] \<and>
   map is_summary_call (filter is_sink_call (new_events ex_world
     (snd (processTranscript ex_api ex_config ex_mailbox2 all_succeed ''/m''
          ''/m/2024-03-03/07-00-00_odd.json'' ex_world)))) = [False, True] \<and>
   processed_log (snd (processTranscript ex_api ex_config ex_mailbox2 all_succeed ''/m''
          ''/m/2024-03-03/07-00-00_odd.json'' ex_world)) (processedFilePath ''/m'') = []"
  by code_simp

section \<open>The ledger after a tick\<close>

lemma loadProcessed_emit: "loadProcessed t (emit e w) = loadProcessed t w"
  by (simp add: loadProcessed_def emit_def)

lemma loadProcessed_processTranscript:
  "p \<noteq> [] \<Longrightarrow>
   loadProcessed t (snd (processTranscript a cfg mb oc t p w)) =
   (if failure cfg mb p = None then insert p (loadProcessed t w) else loadProcessed t w)"
  by (auto simp: loadProcessed_def processTranscript_log)

lemma loadProcessed_visit:
  "loadProcessed t (visit a cfg mb env t P dp f w) =
   (if join dp f \<in> P \<or> failure cfg mb (join dp f) \<noteq> None then loadProcessed t w
    else insert (join dp f) (loadProcessed t w))"
proof (cases "join dp f \<in> P")
  case True
  then show ?thesis by (simp add: visit_def Let_def)
next
  case False
  have ne: "join dp f \<noteq> []" by (rule join_not_empty)
  obtain r w' where pt: "processTranscript a cfg mb (env (join dp f)) t (join dp f) w = (r, w')"
    by (cases "processTranscript a cfg mb (env (join dp f)) t (join dp f) w")
  have lw: "loadProcessed t w' =
      (if failure cfg mb (join dp f) = None then insert (join dp f) (loadProcessed t w)
       else loadProcessed t w)"
    using loadProcessed_processTranscript [OF ne, of t a cfg mb "env (join dp f)" w] pt by simp
  show ?thesis
    using False pt lw by (cases r) (simp_all add: visit_def Let_def loadProcessed_emit)
qed

lemma loadProcessed_process_entries:
  "loadProcessed t (process_entries a cfg mb env t P dp fs w) =
   loadProcessed t w \<union> {p \<in> join dp ` set fs. p \<notin> P \<and> failure cfg mb p = None}"
proof (induction fs arbitrary: w)
  case Nil
  then show ?case by simp
next
  case (Cons f fs)
  show ?case
    unfolding process_entries.simps Cons.IH loadProcessed_visit by auto
qed

lemma scan_buckets_Cons:
  "scan_buckets a cfg mb env t P (d # ds) w =
   scan_buckets a cfg mb env t P ds
     (process_entries a cfg mb env t P (join t d) (bucket_files mb t d) w)"
  by (simp add: bucket_files_def Let_def split: sum.splits)

lemma loadProcessed_scan_buckets:
  "loadProcessed t (scan_buckets a cfg mb env t P ds w) =
   loadProcessed t w \<union>
   {p \<in> set (concat (map (\<lambda>d. map (join (join t d)) (bucket_files mb t d)) ds)).
      p \<notin> P \<and> failure cfg mb p = None}"
proof (induction ds arbitrary: w)
  case Nil
  then show ?case by simp
next
  case (Cons d ds)
  show ?case
    unfolding scan_buckets_Cons Cons.IH loadProcessed_process_entries by auto
qed

lemma tick_eq:
  "tick a cfg mb env t w =
   (if \<not> mb_exists mb t then w
    else (case mb_readdir mb t of
            Inl err \<Rightarrow> emit (Logger_warn (''[alfred-talk] Transcript scan error: '' @ err)) w
          | Inr names \<Rightarrow> scan_buckets a cfg mb env t (loadProcessed t w) (rev (sort names)) w))"
  by (simp add: tick_def scanAndProcessTranscripts_def split: sum.splits)

text \<open>After a tick the ledger holds what it held and the entries whose processing returned.\<close>

lemma loadProcessed_tick:
  "loadProcessed t (tick a cfg mb env t w) =
   loadProcessed t w \<union> {p \<in> set (mailbox_entries mb t). failure cfg mb p = None}"
  by (auto simp: tick_eq mailbox_entries_def loadProcessed_scan_buckets loadProcessed_emit
      split: sum.splits)

section \<open>Ticks that change nothing\<close>

lemma visit_quiet:
  assumes "join dp f \<in> P \<or> isl (mb_read mb (join dp f))"
  shows "\<exists>es. visit a cfg mb env t P dp f w = w\<lparr>trace := trace w @ es\<rparr> \<and>
              (\<forall>e\<in>set es. \<not> is_sink_call e)"
proof (cases "join dp f \<in> P")
  case True
  then have "visit a cfg mb env t P dp f w = w\<lparr>trace := trace w @ []\<rparr>"
    by (simp add: visit_def Let_def)
  then show ?thesis by (intro exI [of _ "[]"]) simp
next
  case False
  with assms obtain err where "mb_read mb (join dp f) = Inl err"
    by (cases "mb_read mb (join dp f)") auto
  with False have "visit a cfg mb env t P dp f w =
      w\<lparr>trace := trace w @ [Logger_warn (''[alfred-talk] Failed to process '' @ f @ '': '' @ err)]\<rparr>"
    by (simp add: visit_def Let_def processTranscript_throws emit_def)
  moreover have "\<forall>e\<in>set [Logger_warn (''[alfred-talk] Failed to process '' @ f @ '': '' @ err)].
      \<not> is_sink_call e"
    by (simp add: is_sink_call_def)
  ultimately show ?thesis by blast
qed

lemma process_entries_quiet:
  assumes "\<forall>f\<in>set fs. join dp f \<in> P \<or> isl (mb_read mb (join dp f))"
  shows "\<exists>es. process_entries a cfg mb env t P dp fs w = w\<lparr>trace := trace w @ es\<rparr> \<and>
              (\<forall>e\<in>set es. \<not> is_sink_call e)"
  using assms
proof (induction fs arbitrary: w)
  case Nil
  have "process_entries a cfg mb env t P dp [] w = w\<lparr>trace := trace w @ []\<rparr>" by simp
  then show ?case by (intro exI [of _ "[]"]) simp
next
  case (Cons f fs)
  from Cons.prems obtain es1 where
    v: "visit a cfg mb env t P dp f w = w\<lparr>trace := trace w @ es1\<rparr>" and
    q1: "\<forall>e\<in>set es1. \<not> is_sink_call e"
    using visit_quiet [of dp f P mb a cfg env t w] by auto
  from Cons.prems have "\<forall>f\<in>set fs. join dp f \<in> P \<or> isl (mb_read mb (join dp f))" by simp
  from Cons.IH [OF this, of "w\<lparr>trace := trace w @ es1\<rparr>"] obtain es2 where
    r: "process_entries a cfg mb env t P dp fs (w\<lparr>trace := trace w @ es1\<rparr>) =
        w\<lparr>trace := trace w @ es1 @ es2\<rparr>" and
    q2: "\<forall>e\<in>set es2. \<not> is_sink_call e"
    by auto
  have "process_entries a cfg mb env t P dp (f # fs) w = w\<lparr>trace := trace w @ (es1 @ es2)\<rparr>"
    using v r by simp
  moreover have "\<forall>e\<in>set (es1 @ es2). \<not> is_sink_call e" using q1 q2 by auto
  ultimately show ?case by blast
qed

lemma scan_buckets_quiet:
  assumes "\<forall>p\<in>set (concat (map (\<lambda>d. map (join (join t d)) (bucket_files mb t d)) ds)).
             p \<in> P \<or> isl (mb_read mb p)"
  shows "\<exists>es. scan_buckets a cfg mb env t P ds w = w\<lparr>trace := trace w @ es\<rparr> \<and>
              (\<forall>e\<in>set es. \<not> is_sink_call e)"
  using assms
proof (induction ds arbitrary: w)
  case Nil
  have "scan_buckets a cfg mb env t P [] w = w\<lparr>trace := trace w @ []\<rparr>" by simp
  then show ?case by (intro exI [of _ "[]"]) simp
next
  case (Cons d ds)
  from Cons.prems have "\<forall>f\<in>set (bucket_files mb t d).
      join (join t d) f \<in> P \<or> isl (mb_read mb (join (join t d) f))" by simp
  from process_entries_quiet [OF this, of a cfg env t w] obtain es1 where
    v: "process_entries a cfg mb env t P (join t d) (bucket_files mb t d) w =
        w\<lparr>trace := trace w @ es1\<rparr>" and
    q1: "\<forall>e\<in>set es1. \<not> is_sink_call e"
    by auto
  from Cons.prems have "\<forall>p\<in>set (concat (map (\<lambda>d. map (join (join t d)) (bucket_files mb t d)) ds)).
             p \<in> P \<or> isl (mb_read mb p)" by simp
  from Cons.IH [OF this, of "w\<lparr>trace := trace w @ es1\<rparr>"] obtain es2 where
    r: "scan_buckets a cfg mb env t P ds (w\<lparr>trace := trace w @ es1\<rparr>) =
        w\<lparr>trace := trace w @ es1 @ es2\<rparr>" and
    q2: "\<forall>e\<in>set es2. \<not> is_sink_call e"
    by auto
  have "scan_buckets a cfg mb env t P (d # ds) w = w\<lparr>trace := trace w @ (es1 @ es2)\<rparr>"
    unfolding scan_buckets_Cons using v r by simp
  moreover have "\<forall>e\<in>set (es1 @ es2). \<not> is_sink_call e" using q1 q2 by auto
  ultimately show ?case by blast
qed

lemma tick_quiet:
  assumes "\<forall>p\<in>set (mailbox_entries mb t). p \<in> loadProcessed t w \<or> isl (mb_read mb p)"
  shows "\<exists>es. tick a cfg mb env t w = w\<lparr>trace := trace w @ es\<rparr> \<and>
              (\<forall>e\<in>set es. \<not> is_sink_call e)"
proof (cases "mb_exists mb t")
  case False
  then have "tick a cfg mb env t w = w\<lparr>trace := trace w @ []\<rparr>" by (simp add: tick_eq)
  then show ?thesis by (intro exI [of _ "[]"]) simp
next
  case True
  show ?thesis
  proof (cases "mb_readdir mb t")
    case (Inl err)
    with True have "tick a cfg mb env t w =
        w\<lparr>trace := trace w @ [Logger_warn (''[alfred-talk] Transcript scan error: '' @ err)]\<rparr>"
      by (simp add: tick_eq emit_def)
    moreover have "\<forall>e\<in>set [Logger_warn (''[alfred-talk] Transcript scan error: '' @ err)].
        \<not> is_sink_call e" by (simp add: is_sink_call_def)
    ultimately show ?thesis by blast
  next
    case (Inr names)
    with True assms have "\<forall>p\<in>set (concat (map (\<lambda>d. map (join (join t d)) (bucket_files mb t d))
          (rev (sort names)))). p \<in> loadProcessed t w \<or> isl (mb_read mb p)"
      by (simp add: mailbox_entries_def)
    from scan_buckets_quiet [OF this, of a cfg env w] show ?thesis
      using True Inr by (simp add: tick_eq)
  qed
qed

text \<open>
  When no entry of the mailbox is one that the first tick leaves after the two tool sinks
  (every entry that fails under its configuration fails to be read), the second tick,
  with whatever host, configuration and surroundings, leaves the ledger and the inbox as
  they were and calls no sink.
\<close>

lemma second_tick_is_quiet_when_names_are_text:
  assumes "\<forall>p\<in>set (mailbox_entries mb t). failure cfg mb p = None \<or> isl (mb_read mb p)"
  shows "(let w1 = tick a cfg mb env t w; w2 = tick b cfg' mb env' t w1
    in processed_log w2 = processed_log w1 \<and> fs_dirs w2 = fs_dirs w1 \<and>
       fs_files w2 = fs_files w1 \<and> filter is_sink_call (new_events w1 w2) = [])"
proof -
  let ?w1 = "tick a cfg mb env t w"
  have "\<forall>p\<in>set (mailbox_entries mb t). p \<in> loadProcessed t ?w1 \<or> isl (mb_read mb p)"
    using assms by (auto simp: loadProcessed_tick)
  from tick_quiet [OF this, of b cfg' env'] obtain es where
    e: "tick b cfg' mb env' t ?w1 = ?w1\<lparr>trace := trace ?w1 @ es\<rparr>" and
    q: "\<forall>e\<in>set es. \<not> is_sink_call e"
    by auto
  have "filter is_sink_call es = []" using q by (simp add: filter_empty_conv)
  then show ?thesis
    unfolding Let_def e by (simp add: new_events_def)
qed

text \<open>
  C2. The claim fails on the mailbox \<^const>\<open>ex_mailbox2\<close>, for the reason C1 fails. The first
  tick sends the chat message and spawns the summariser for \<^verbatim>\<open>07-00-00_odd.json\<close>, throws
  before the entry is marked, and marks the flat call only. Nothing is added to the
  mailbox; the second tick, which loads the ledger from the log as a restarted process
  does, finds the entry unmarked, sends the same chat message and spawns the summariser
  again. The ledger is as the first tick left it.
\<close>

theorem second_tick_repeats_sink_calls:
  "processed_log (tick ex_api ex_config ex_mailbox2 (\<lambda>p. all_succeed) ''/m'' ex_world)
     (processedFilePath ''/m'') = [''/m/2024-03-03/07-30-00_xyz.json''] \<and>
   map is_chat_call (filter is_sink_call
     (new_events (tick ex_api ex_config ex_mailbox2 (\<lambda>p. all_succeed) ''/m'' ex_world)
        (tick ex_api ex_config ex_mailbox2 (\<lambda>p. all_succeed) ''/m''
           (tick ex_api ex_config ex_mailbox2 (\<lambda>p. all_succeed) ''/m'' ex_world)))) =
     [True, False] \<and>
   map is_summary_call (filter is_sink_call
     (new_events (tick ex_api ex_config ex_mailbox2 (\<lambda>p. all_succeed) ''/m'' ex_world)
        (tick ex_api ex_config ex_mailbox2 (\<lambda>p. all_succeed) ''/m''
           (tick ex_api ex_config ex_mailbox2 (\<lambda>p. all_succeed) ''/m'' ex_world)))) =
     [False, True] \<and>
   filter is_chat_call
     (new_events (tick ex_api ex_config ex_mailbox2 (\<lambda>p. all_succeed) ''/m'' ex_world)
        (tick ex_api ex_config ex_mailbox2 (\<lambda>p. all_succeed) ''/m''
           (tick ex_api ex_config ex_mailbox2 (\<lambda>p. all_succeed) ''/m'' ex_world))) =
   filter is_chat_call
     (new_events ex_world (snd (processTranscript ex_api ex_config ex_mailbox2 all_succeed ''/m''
        ''/m/2024-03-03/07-00-00_odd.json'' ex_world))) \<and>
   processed_log (tick ex_api ex_config ex_mailbox2 (\<lambda>p. all_succeed) ''/m''
       (tick ex_api ex_config ex_mailbox2 (\<lambda>p. all_succeed) ''/m'' ex_world))
     (processedFilePath ''/m'') = [''/m/2024-03-03/07-30-00_xyz.json'']"
  by code_simp

section \<open>Entries that fail and entries without a line\<close>

lemma trace_markProcessed: "trace (markProcessed t p w) = trace w"
  by (simp add: markProcessed_def)

lemma trace_processTranscript_ext:
  "\<exists>es. trace (snd (processTranscript a cfg mb oc t p w)) = trace w @ es"
proof (cases "mb_read mb p")
  case (Inl err)
  then show ?thesis by (simp add: processTranscript_throws)
next
  case (Inr d)
  show ?thesis
  proof (cases "build_lines (callerName_of cfg d) (transcript_of d) = []")
    case True
    with Inr show ?thesis
      by (simp add: processTranscript_def Let_def trace_markProcessed)
  next
    case False
    obtain r w' where
      dp: "dispatch a cfg oc p d (build_lines (callerName_of cfg d) (transcript_of d)) w = (r, w')"
      by (cases "dispatch a cfg oc p d (build_lines (callerName_of cfg d) (transcript_of d)) w")
    obtain es where "trace w' = trace w @ es"
      using trace_dispatch
        [of a cfg oc p d "build_lines (callerName_of cfg d) (transcript_of d)" w] dp
      by simp
    then show ?thesis
      using dp
      by (cases r)
         (simp_all add: processTranscript_dispatched [OF Inr False] trace_markProcessed emit_def)
  qed
qed

text \<open>A visit that throws is caught by the scan and shows as a warning.\<close>

lemma trace_visit:
  "\<exists>es. trace (visit a cfg mb env t P dp f w) = trace w @ es \<and>
        (\<forall>err. join dp f \<notin> P \<and> failure cfg mb (join dp f) = Some err \<longrightarrow>
           failed_to_process f err \<in> set es)"
proof (cases "join dp f \<in> P")
  case True
  then show ?thesis by (simp add: visit_def Let_def)
next
  case False
  obtain r w1 where pt: "processTranscript a cfg mb (env (join dp f)) t (join dp f) w = (r, w1)"
    by (cases "processTranscript a cfg mb (env (join dp f)) t (join dp f) w")
  obtain es where es: "trace w1 = trace w @ es"
    using trace_processTranscript_ext [of a cfg mb "env (join dp f)" t "join dp f" w] pt by auto
  have r: "r = (case failure cfg mb (join dp f) of Some err \<Rightarrow> Inl err | None \<Rightarrow> Inr ())"
    using processTranscript_result [of a cfg mb "env (join dp f)" t "join dp f" w] pt by simp
  show ?thesis
  proof (cases "failure cfg mb (join dp f)")
    case None
    then show ?thesis
      using False pt r es by (simp add: visit_def Let_def)
  next
    case (Some err)
    then have "trace (visit a cfg mb env t P dp f w) = trace w @ (es @ [failed_to_process f err])"
      using False pt r es by (simp add: visit_def Let_def emit_def failed_to_process_def)
    moreover have "\<forall>err'. join dp f \<notin> P \<and> failure cfg mb (join dp f) = Some err' \<longrightarrow>
        failed_to_process f err' \<in> set (es @ [failed_to_process f err])"
      using Some by simp
    ultimately show ?thesis by blast
  qed
qed

lemma trace_process_entries:
  "\<exists>es. trace (process_entries a cfg mb env t P dp fs w) = trace w @ es \<and>
        (\<forall>f err. f \<in> set fs \<and> join dp f \<notin> P \<and> failure cfg mb (join dp f) = Some err \<longrightarrow>
           failed_to_process f err \<in> set es)"
proof (induction fs arbitrary: w)
  case Nil
  then show ?case by simp
next
  case (Cons g fs)
  obtain es1 where
    v: "trace (visit a cfg mb env t P dp g w) = trace w @ es1" and
    q1: "\<forall>err. join dp g \<notin> P \<and> failure cfg mb (join dp g) = Some err \<longrightarrow>
           failed_to_process g err \<in> set es1"
    using trace_visit [of a cfg mb env t P dp g w] by blast
  obtain es2 where
    r: "trace (process_entries a cfg mb env t P dp fs (visit a cfg mb env t P dp g w)) =
        trace (visit a cfg mb env t P dp g w) @ es2" and
    q2: "\<forall>f err. f \<in> set fs \<and> join dp f \<notin> P \<and> failure cfg mb (join dp f) = Some err \<longrightarrow>
           failed_to_process f err \<in> set es2"
    using Cons.IH [of "visit a cfg mb env t P dp g w"] by blast
  have "trace (process_entries a cfg mb env t P dp (g # fs) w) = trace w @ (es1 @ es2)"
    using v r by simp
  moreover have "\<forall>f err. f \<in> set (g # fs) \<and> join dp f \<notin> P \<and>
           failure cfg mb (join dp f) = Some err \<longrightarrow>
           failed_to_process f err \<in> set (es1 @ es2)"
    using q1 q2 by auto
  ultimately show ?case by blast
qed

lemma trace_scan_buckets:
  "\<exists>es. trace (scan_buckets a cfg mb env t P ds w) = trace w @ es \<and>
        (\<forall>d f err. d \<in> set ds \<and> f \<in> set (bucket_files mb t d) \<and> join (join t d) f \<notin> P \<and>
           failure cfg mb (join (join t d) f) = Some err \<longrightarrow> failed_to_process f err \<in> set es)"
proof (induction ds arbitrary: w)
  case Nil
  then show ?case by simp
next
  case (Cons c ds)
  let ?w1 = "process_entries a cfg mb env t P (join t c) (bucket_files mb t c) w"
  obtain es1 where
    v: "trace ?w1 = trace w @ es1" and
    q1: "\<forall>f err. f \<in> set (bucket_files mb t c) \<and> join (join t c) f \<notin> P \<and>
           failure cfg mb (join (join t c) f) = Some err \<longrightarrow> failed_to_process f err \<in> set es1"
    using trace_process_entries [of a cfg mb env t P "join t c" "bucket_files mb t c" w] by blast
  obtain es2 where
    r: "trace (scan_buckets a cfg mb env t P ds ?w1) = trace ?w1 @ es2" and
    q2: "\<forall>d f err. d \<in> set ds \<and> f \<in> set (bucket_files mb t d) \<and> join (join t d) f \<notin> P \<and>
           failure cfg mb (join (join t d) f) = Some err \<longrightarrow> failed_to_process f err \<in> set es2"
    using Cons.IH [of ?w1] by blast
  have "trace (scan_buckets a cfg mb env t P (c # ds) w) = trace w @ (es1 @ es2)"
    unfolding scan_buckets_Cons using v r by simp
  moreover have "\<forall>d f err. d \<in> set (c # ds) \<and> f \<in> set (bucket_files mb t d) \<and>
           join (join t d) f \<notin> P \<and> failure cfg mb (join (join t d) f) = Some err \<longrightarrow>
           failed_to_process f err \<in> set (es1 @ es2)"
    using q1 q2 by auto
  ultimately show ?case by blast
qed

lemma tick_warns_failure:
  assumes "mb_exists mb t" and "mb_readdir mb t = Inr buckets" and "d \<in> set buckets"
    and "f \<in> set (bucket_files mb t d)" and "failure cfg mb (join (join t d) f) = Some err"
    and "join (join t d) f \<notin> loadProcessed t w"
  shows "failed_to_process f err \<in> set (new_events w (tick a cfg mb env t w))"
proof -
  obtain es where
    tr: "trace (scan_buckets a cfg mb env t (loadProcessed t w) (rev (sort buckets)) w) = trace w @ es" and
    q: "\<forall>d f err. d \<in> set (rev (sort buckets)) \<and> f \<in> set (bucket_files mb t d) \<and>
           join (join t d) f \<notin> loadProcessed t w \<and>
           failure cfg mb (join (join t d) f) = Some err \<longrightarrow> failed_to_process f err \<in> set es"
    using trace_scan_buckets [of a cfg mb env t "loadProcessed t w" "rev (sort buckets)" w] by blast
  have "failed_to_process f err \<in> set es"
    using q assms by auto
  then show ?thesis
    using assms(1,2) tr by (simp add: tick_eq new_events_def)
qed

lemma entry_in_mailbox:
  assumes "mb_exists mb t" and "mb_readdir mb t = Inr buckets" and "d \<in> set buckets"
    and "f \<in> set (bucket_files mb t d)"
  shows "join (join t d) f \<in> set (mailbox_entries mb t)"
  using assms by (auto simp: mailbox_entries_def)

lemma loadProcessed_run_ticks:
  "loadProcessed t (run_ticks a cfg mb envs t w) \<subseteq>
   loadProcessed t w \<union> {p \<in> set (mailbox_entries mb t). failure cfg mb p = None}"
proof (induction envs arbitrary: w)
  case Nil
  then show ?case by simp
next
  case (Cons env envs)
  show ?case
    using Cons.IH [of "tick a cfg mb env t w"] by (auto simp: loadProcessed_tick)
qed

lemma failure_of_result:
  "fst (processTranscript a cfg mb oc t p w) = Inl err \<longleftrightarrow> failure cfg mb p = Some err"
  by (simp add: processTranscript_result split: option.splits)

lemma no_failure_of_result:
  "fst (processTranscript a cfg mb oc t p w) = Inr () \<longleftrightarrow> failure cfg mb p = None"
  by (simp add: processTranscript_result split: option.splits)

text \<open>
  C3. Take an entry of the mailbox whose processing throws, wherever it throws (when the
  file is read, or at \<^verbatim>\<open>callerName.toLowerCase()\<close> after the two tool sinks), and that is not
  in the ledger. After any number of ticks it is still not in the ledger; the next tick
  does not put it there either and logs the warning \<^verbatim>\<open>Failed to process\<close> with the message
  of the error, which is how an attempt that was made and caught shows; and after that
  tick every entry of the mailbox whose processing returns is in the ledger.
\<close>

theorem failing_entry_retried_never_marked:
  assumes "mb_exists mb t" and "mb_readdir mb t = Inr buckets" and "d \<in> set buckets"
    and "f \<in> set (bucket_files mb t d)"
    and "fst (processTranscript a cfg mb oc t (join (join t d) f) w0) = Inl err"
    and "join (join t d) f \<notin> loadProcessed t w"
  shows "(let p = join (join t d) f;
              w' = run_ticks a cfg mb envs t w;
              w'' = tick a cfg mb env t w'
          in p \<notin> loadProcessed t w' \<and> p \<notin> loadProcessed t w'' \<and>
             failed_to_process f err \<in> set (new_events w' w'') \<and>
             (\<forall>q\<in>set (mailbox_entries mb t). \<forall>oc1 w1.
                fst (processTranscript a cfg mb oc1 t q w1) = Inr () \<longrightarrow>
                q \<in> loadProcessed t w''))"
proof -
  let ?p = "join (join t d) f"
  let ?w' = "run_ticks a cfg mb envs t w"
  have fl: "failure cfg mb ?p = Some err"
    using assms(5) by (simp add: failure_of_result)
  have 1: "?p \<notin> loadProcessed t ?w'"
    using loadProcessed_run_ticks [of t a cfg mb envs w] fl assms(6) by auto
  have 2: "?p \<notin> loadProcessed t (tick a cfg mb env t ?w')"
    using 1 fl by (simp add: loadProcessed_tick)
  have 3: "failed_to_process f err \<in> set (new_events ?w' (tick a cfg mb env t ?w'))"
    using tick_warns_failure [OF assms(1-4) fl 1] .
  have 4: "\<forall>q\<in>set (mailbox_entries mb t). \<forall>oc1 w1.
      fst (processTranscript a cfg mb oc1 t q w1) = Inr () \<longrightarrow>
      q \<in> loadProcessed t (tick a cfg mb env t ?w')"
    by (simp add: loadProcessed_tick no_failure_of_result)
  show ?thesis
    unfolding Let_def using 1 2 3 4 by blast
qed

theorem failing_entry_retried_never_marked_witness:
  "''/m/2024-03-03/07-00-00_odd.json'' \<notin>
     loadProcessed ''/m'' (run_ticks ex_api ex_config ex_mailbox2
        [\<lambda>p. all_succeed, \<lambda>p. all_fail] ''/m'' ex_world) \<and>
   ''/m/2024-03-03/07-00-00_odd.json'' \<notin>
     loadProcessed ''/m'' (tick ex_api ex_config ex_mailbox2 (\<lambda>p. all_succeed) ''/m''
        (run_ticks ex_api ex_config ex_mailbox2 [\<lambda>p. all_succeed, \<lambda>p. all_fail] ''/m''
           ex_world)) \<and>
   failed_to_process ''07-00-00_odd.json'' ''callerName.toLowerCase is not a function'' \<in>
     set (new_events
        (run_ticks ex_api ex_config ex_mailbox2 [\<lambda>p. all_succeed, \<lambda>p. all_fail] ''/m'' ex_world)
        (tick ex_api ex_config ex_mailbox2 (\<lambda>p. all_succeed) ''/m''
           (run_ticks ex_api ex_config ex_mailbox2 [\<lambda>p. all_succeed, \<lambda>p. all_fail] ''/m''
              ex_world))) \<and>
   ''/m/2024-03-03/08-00-00_bad.json'' \<notin>
     loadProcessed ''/m'' (tick ex_api ex_config ex_mailbox2 (\<lambda>p. all_succeed) ''/m''
        (run_ticks ex_api ex_config ex_mailbox2 [\<lambda>p. all_succeed, \<lambda>p. all_fail] ''/m''
           ex_world)) \<and>
   failed_to_process ''08-00-00_bad.json'' ''Unexpected end of JSON input'' \<in>
     set (new_events
        (run_ticks ex_api ex_config ex_mailbox2 [\<lambda>p. all_succeed, \<lambda>p. all_fail] ''/m'' ex_world)
        (tick ex_api ex_config ex_mailbox2 (\<lambda>p. all_succeed) ''/m''
           (run_ticks ex_api ex_config ex_mailbox2 [\<lambda>p. all_succeed, \<lambda>p. all_fail] ''/m''
              ex_world))) \<and>
   ''/m/2024-03-03/07-30-00_xyz.json'' \<in>
     loadProcessed ''/m'' (tick ex_api ex_config ex_mailbox2 (\<lambda>p. all_succeed) ''/m''
        (run_ticks ex_api ex_config ex_mailbox2 [\<lambda>p. all_succeed, \<lambda>p. all_fail] ''/m''
           ex_world))"
proof -
  have 1: "mb_exists ex_mailbox2 ''/m''"
    by (simp add: ex_mailbox2_def)
  have 2: "mb_readdir ex_mailbox2 ''/m'' = Inr [''2024-03-03'']"
    by (simp add: ex_mailbox2_def)
  have 3: "''2024-03-03'' \<in> set [''2024-03-03'']"
    by simp
  have 4: "''07-00-00_odd.json'' \<in> set (bucket_files ex_mailbox2 ''/m'' ''2024-03-03'')"
    "''08-00-00_bad.json'' \<in> set (bucket_files ex_mailbox2 ''/m'' ''2024-03-03'')"
    by code_simp+
  have 5: "fst (processTranscript ex_api ex_config ex_mailbox2 all_succeed ''/m''
      (join (join ''/m'' ''2024-03-03'') ''07-00-00_odd.json'') ex_world) =
      Inl ''callerName.toLowerCase is not a function''"
    "fst (processTranscript ex_api ex_config ex_mailbox2 all_succeed ''/m''
      (join (join ''/m'' ''2024-03-03'') ''08-00-00_bad.json'') ex_world) =
      Inl ''Unexpected end of JSON input''"
    by code_simp+
  have 6: "join (join ''/m'' ''2024-03-03'') ''07-00-00_odd.json'' \<notin> loadProcessed ''/m'' ex_world"
    "join (join ''/m'' ''2024-03-03'') ''08-00-00_bad.json'' \<notin> loadProcessed ''/m'' ex_world"
    by (simp_all add: loadProcessed_def ex_world_def)
  have 7: "''/m/2024-03-03/07-30-00_xyz.json'' \<in> set (mailbox_entries ex_mailbox2 ''/m'')"
    by code_simp
  have 8: "fst (processTranscript ex_api ex_config ex_mailbox2 all_fail ''/m''
      ''/m/2024-03-03/07-30-00_xyz.json'' ex_world) = Inr ()"
    by code_simp
  have 9: "join (join ''/m'' ''2024-03-03'') ''07-00-00_odd.json'' = ''/m/2024-03-03/07-00-00_odd.json''"
    "join (join ''/m'' ''2024-03-03'') ''08-00-00_bad.json'' = ''/m/2024-03-03/08-00-00_bad.json''"
    by (simp_all add: join_def)
  show ?thesis
    using failing_entry_retried_never_marked [OF 1 2 3 4(1) 5(1) 6(1),
        where envs = "[\<lambda>p. all_succeed, \<lambda>p. all_fail]" and env = "\<lambda>p. all_succeed"]
      failing_entry_retried_never_marked [OF 1 2 3 4(2) 5(2) 6(2),
        where envs = "[\<lambda>p. all_succeed, \<lambda>p. all_fail]" and env = "\<lambda>p. all_succeed"]
      7 8
    unfolding Let_def 9 by blast
qed

text \<open>
  C4. Let the file of an entry parse and its dialogue have no line. Then all that
  \<^const>\<open>processTranscript\<close> does is to mark the entry: it returns normally, the world it
  leaves is the one \<^const>\<open>markProcessed\<close> gives, so no event was added to the trace (no sink
  was called) and no file was written, and the path is the last record of the ledger.
  When the entry is one of the mailbox, it is in the ledger after one tick.
\<close>

theorem silent_entry_marked_without_sinks:
  assumes "mb_read mb p = Inr d" and "build_lines (callerName_of cfg d) (transcript_of d) = []"
  shows "processTranscript a cfg mb oc t p w = (Inr (), markProcessed t p w) \<and>
         new_events w (markProcessed t p w) = [] \<and>
         fs_files (markProcessed t p w) = fs_files w \<and>
         fs_dirs (markProcessed t p w) = fs_dirs w \<and>
         processed_log (markProcessed t p w) (processedFilePath t) =
           processed_log w (processedFilePath t) @ [p] \<and>
         (p \<in> set (mailbox_entries mb t) \<longrightarrow> p \<in> loadProcessed t (tick a cfg mb env t w0))"
proof -
  have "failure cfg mb p = None"
    using assms by (simp add: failure_def split: caller.splits)
  then show ?thesis
    using assms
    by (simp add: processTranscript_def Let_def new_events_def markProcessed_def loadProcessed_tick)
qed

theorem silent_entry_marked_without_sinks_witness:
  "processTranscript ex_api ex_config ex_mailbox all_succeed ''/t''
       ''/t/2024-02-28/09-15-00_hup.json'' ex_world =
     (Inr (), markProcessed ''/t'' ''/t/2024-02-28/09-15-00_hup.json'' ex_world) \<and>
   new_events ex_world (markProcessed ''/t'' ''/t/2024-02-28/09-15-00_hup.json'' ex_world) = [] \<and>
   ''/t/2024-02-28/09-15-00_hup.json'' \<in>
     loadProcessed ''/t'' (tick ex_api ex_config ex_mailbox (\<lambda>p. all_succeed) ''/t'' ex_world)"
proof -
  have 1: "mb_read ex_mailbox ''/t/2024-02-28/09-15-00_hup.json'' = Inr ex_silent"
    by (simp add: ex_mailbox_def)
  have 2: "build_lines (callerName_of ex_config ex_silent) (transcript_of ex_silent) = []"
    by code_simp
  have 3: "''/t/2024-02-28/09-15-00_hup.json'' \<in> set (mailbox_entries ex_mailbox ''/t'')"
    by code_simp
  show ?thesis
    using silent_entry_marked_without_sinks [OF 1 2, where a = ex_api and oc = all_succeed and
        t = "''/t''" and w = ex_world and env = "\<lambda>p. all_succeed" and w0 = ex_world] 3
    by blast
qed

section \<open>Normalising the turns\<close>

lemma all_not_gt: "CHR ''>'' \<notin> set s \<Longrightarrow> \<forall>x\<in>set s. not_gt x"
  by (auto simp: not_gt_def)

lemma opens_tagI:
  assumes "tag \<noteq> []" and "CHR ''>'' \<notin> set tag"
  shows "opens_tag (tag @ CHR ''>'' # ys)"
    and "dropWhile not_gt (tag @ CHR ''>'' # ys) = CHR ''>'' # ys"
proof -
  have a: "\<forall>x\<in>set tag. not_gt x" using assms(2) by (rule all_not_gt)
  have t: "takeWhile not_gt (tag @ CHR ''>'' # ys) = tag"
    using a by (simp add: not_gt_def)
  show d: "dropWhile not_gt (tag @ CHR ''>'' # ys) = CHR ''>'' # ys"
    using a by (simp add: not_gt_def)
  show "opens_tag (tag @ CHR ''>'' # ys)"
    unfolding opens_tag_def t d using assms(1) by simp
qed

lemma not_opens_tag_no_gt: "CHR ''>'' \<notin> set cs \<Longrightarrow> \<not> opens_tag cs"
  using all_not_gt [of cs] by (simp add: opens_tag_def)

lemma strip_tags_no_gt: "CHR ''>'' \<notin> set s \<Longrightarrow> strip_tags s = s"
  by (induction s) (auto simp: not_opens_tag_no_gt)

lemma strip_tags_no_lt: "CHR ''<'' \<notin> set s \<Longrightarrow> strip_tags s = s"
  by (induction s) auto

lemma strip_tags_tag:
  assumes "tag \<noteq> []" and "CHR ''>'' \<notin> set tag"
  shows "strip_tags (CHR ''<'' # tag @ CHR ''>'' # ys) = strip_tags ys"
  using opens_tagI [OF assms, of ys] by simp

lemma strip_tags_append:
  "CHR ''<'' \<notin> set xs \<Longrightarrow> strip_tags (xs @ ys) = xs @ strip_tags ys"
  by (induction xs) auto

lemma not_opens_tag_strip:
  assumes "\<not> opens_tag cs"
  shows "\<not> opens_tag (strip_tags cs)"
proof (cases "CHR ''>'' \<in> set cs")
  case False
  then show ?thesis using assms by (simp add: strip_tags_no_gt)
next
  case True
  then have "dropWhile not_gt cs \<noteq> []"
    by (auto simp: not_gt_def)
  with assms have "takeWhile not_gt cs = []"
    unfolding opens_tag_def by blast
  then obtain cs' where cs: "cs = CHR ''>'' # cs'"
    using True by (cases cs) (auto simp: not_gt_def split: if_splits)
  have "strip_tags cs = CHR ''>'' # strip_tags cs'"
    unfolding cs by simp
  then show ?thesis
    by (simp add: opens_tag_def not_gt_def)
qed

lemma no_tag_strip_tags: "\<not> has_tag (strip_tags s)"
proof (induction s rule: strip_tags.induct)
  case 1
  then show ?case by simp
next
  case (2 c cs)
  show ?case
  proof (cases "c = CHR ''<'' \<and> opens_tag cs")
    case True
    with 2(1) show ?thesis by simp
  next
    case False
    then have ih: "\<not> has_tag (strip_tags cs)" by (rule 2(2))
    have "c = CHR ''<'' \<Longrightarrow> \<not> opens_tag (strip_tags cs)"
      using False not_opens_tag_strip by blast
    then show ?thesis using False ih by auto
  qed
qed

lemma has_tag_append: "has_tag ys \<Longrightarrow> has_tag (xs @ ys)"
  by (induction xs) auto

lemma has_tag_intro:
  assumes "tag \<noteq> []" and "CHR ''>'' \<notin> set tag"
  shows "has_tag (xs @ CHR ''<'' # tag @ CHR ''>'' # ys)"
proof -
  have "has_tag (CHR ''<'' # tag @ CHR ''>'' # ys)"
    using opens_tagI(1) [OF assms, of ys] by simp
  then show ?thesis by (rule has_tag_append)
qed

lemma opens_tag_elim:
  assumes "opens_tag cs"
  shows "\<exists>tag ys. tag \<noteq> [] \<and> CHR ''>'' \<notin> set tag \<and> cs = tag @ CHR ''>'' # ys"
proof -
  let ?t = "takeWhile not_gt cs" and ?d = "dropWhile not_gt cs"
  from assms have t: "?t \<noteq> []" and d: "?d \<noteq> []" by (simp_all add: opens_tag_def)
  have "\<not> not_gt (hd ?d)" using d by (rule hd_dropWhile)
  then have h: "hd ?d = CHR ''>''" by (simp add: not_gt_def)
  have "?d = CHR ''>'' # tl ?d" using d h by (cases ?d) auto
  then have "cs = ?t @ CHR ''>'' # tl ?d"
    by (metis takeWhile_dropWhile_id)
  moreover have "CHR ''>'' \<notin> set ?t"
    using set_takeWhileD [of "CHR ''>''" not_gt cs] by (auto simp: not_gt_def)
  ultimately show ?thesis using t by blast
qed

lemma has_tag_elim:
  "has_tag s \<Longrightarrow> \<exists>xs tag ys. tag \<noteq> [] \<and> CHR ''>'' \<notin> set tag \<and> s = xs @ CHR ''<'' # tag @ CHR ''>'' # ys"
proof (induction s)
  case Nil
  then show ?case by simp
next
  case (Cons c cs)
  show ?case
  proof (cases "c = CHR ''<'' \<and> opens_tag cs")
    case True
    then obtain tag ys where "tag \<noteq> []" "CHR ''>'' \<notin> set tag" "cs = tag @ CHR ''>'' # ys"
      using opens_tag_elim by blast
    then have "tag \<noteq> [] \<and> CHR ''>'' \<notin> set tag \<and> c # cs = [] @ CHR ''<'' # tag @ CHR ''>'' # ys"
      using True by simp
    then show ?thesis by blast
  next
    case False
    with Cons.prems have "has_tag cs" by auto
    from Cons.IH [OF this] obtain xs tag ys where
      "tag \<noteq> []" "CHR ''>'' \<notin> set tag" "cs = xs @ CHR ''<'' # tag @ CHR ''>'' # ys" by blast
    then have "tag \<noteq> [] \<and> CHR ''>'' \<notin> set tag \<and> c # cs = (c # xs) @ CHR ''<'' # tag @ CHR ''>'' # ys"
      by simp
    then show ?thesis by blast
  qed
qed

lemma trim_decompose: "\<exists>pre post. s = pre @ trim s @ post"
proof -
  let ?a = "dropWhile is_space s"
  have 1: "s = takeWhile is_space s @ ?a" by simp
  have "rev ?a = takeWhile is_space (rev ?a) @ dropWhile is_space (rev ?a)" by simp
  then have "rev (rev ?a) = rev (takeWhile is_space (rev ?a) @ dropWhile is_space (rev ?a))"
    by simp
  then have "?a = rev (dropWhile is_space (rev ?a)) @ rev (takeWhile is_space (rev ?a))"
    by (simp only: rev_rev_ident rev_append)
  then have "s = takeWhile is_space s @ trim s @ rev (takeWhile is_space (rev ?a))"
    using 1 by (simp add: trim_def)
  then show ?thesis by blast
qed

lemma no_tag_clean:
  assumes "tag \<noteq> []" and "CHR ''>'' \<notin> set tag"
  shows "trim (strip_tags s) \<noteq> xs @ CHR ''<'' # tag @ CHR ''>'' # ys"
proof
  assume e: "trim (strip_tags s) = xs @ CHR ''<'' # tag @ CHR ''>'' # ys"
  obtain pre post where "strip_tags s = pre @ trim (strip_tags s) @ post"
    using trim_decompose by blast
  then have "strip_tags s = (pre @ xs) @ CHR ''<'' # tag @ CHR ''>'' # (ys @ post)"
    using e by simp
  then have "has_tag (strip_tags s)"
    using has_tag_intro [OF assms, of "pre @ xs" "ys @ post"] by simp
  then show False using no_tag_strip_tags by blast
qed

lemma trim_ends:
  assumes "trim s \<noteq> []"
  shows "\<not> is_space (hd (trim s)) \<and> \<not> is_space (last (trim s))"
proof -
  let ?a = "dropWhile is_space s"
  let ?b = "dropWhile is_space (rev ?a)"
  have t: "trim s = rev ?b" by (simp add: trim_def)
  with assms have bne: "?b \<noteq> []" by simp
  then have hb: "\<not> is_space (hd ?b)" by (rule hd_dropWhile)
  have l: "last (trim s) = hd ?b" using bne t by (simp add: last_rev)
  have ane: "?a \<noteq> []" using bne by (metis dropWhile.simps(1) rev.simps(1))
  then have ha: "\<not> is_space (hd ?a)" by (rule hd_dropWhile)
  have "rev ?a = takeWhile is_space (rev ?a) @ ?b" by simp
  then have "rev (rev ?a) = rev (takeWhile is_space (rev ?a) @ ?b)" by simp
  then have "?a = rev ?b @ rev (takeWhile is_space (rev ?a))"
    by (simp only: rev_rev_ident rev_append)
  then have "hd ?a = hd (rev ?b @ rev (takeWhile is_space (rev ?a)))" by simp
  then have "hd ?a = hd (rev ?b)" using bne by simp
  then show ?thesis using ha hb l t by simp
qed




lemma not_upper_lower_digit: "is_lower c \<or> is_digit c \<Longrightarrow> \<not> is_upper c"
  by (cases c) (auto simp: is_digit_def is_upper_def is_lower_def less_eq_char_def of_bool_def
      split: if_splits)

lemma upper_not_digit_lower: "is_upper c \<Longrightarrow> \<not> is_digit (lower_char c)"
  by (cases c) (auto simp: lower_char_def is_digit_def is_upper_def less_eq_char_def of_bool_def
      split: if_splits)

lemma lower_char_n: "lower_char c = CHR ''n'' \<longleftrightarrow> c = CHR ''n'' \<or> c = CHR ''N''"
  by (cases c) (auto simp: lower_char_def is_upper_def less_eq_char_def of_bool_def
      split: if_splits)

lemma lower_char_o: "lower_char c = CHR ''o'' \<longleftrightarrow> c = CHR ''o'' \<or> c = CHR ''O''"
  by (cases c) (auto simp: lower_char_def is_upper_def less_eq_char_def of_bool_def
      split: if_splits)

lemma lower_char_e: "lower_char c = CHR ''e'' \<longleftrightarrow> c = CHR ''e'' \<or> c = CHR ''E''"
  by (cases c) (auto simp: lower_char_def is_upper_def less_eq_char_def of_bool_def
      split: if_splits)


lemma toLowerCase_none:
  "toLowerCase s = ''none'' \<longleftrightarrow>
   (\<exists>a b c d. s = [a, b, c, d] \<and> (a = CHR ''n'' \<or> a = CHR ''N'') \<and> (b = CHR ''o'' \<or> b = CHR ''O'') \<and>
      (c = CHR ''n'' \<or> c = CHR ''N'') \<and> (d = CHR ''e'' \<or> d = CHR ''E''))"
proof -
  have "toLowerCase s = ''none'' \<longleftrightarrow>
      (\<exists>a b c d. s = [a, b, c, d] \<and> lower_char a = CHR ''n'' \<and> lower_char b = CHR ''o'' \<and>
         lower_char c = CHR ''n'' \<and> lower_char d = CHR ''e'')"
    by (auto simp: toLowerCase_def map_eq_Cons_conv)
  then show ?thesis
    by (simp only: lower_char_n lower_char_o lower_char_e)
qed

lemma build_lines_map_filter:
  "build_lines callerName ts =
     map (\<lambda>t. speaker_label callerName t @ '': '' @ clean_message t)
       (filter (\<lambda>t. clean_message t \<noteq> [] \<and> toLowerCase (clean_message t) \<noteq> ''none'') ts)"
  by (induction ts) (simp_all add: Let_def)

text \<open>
  C7. The lines of the dialogue are, in the order of the turns, the lines of the turns
  that are kept, each made of the speaker's label, a colon and the cleaned message. The
  cleaned message is the message without its tags and trimmed: a message without an
  opening bracket is only trimmed; a tag (an opening bracket, at least one character
  other than a closing bracket, a closing bracket) is taken out; no tag is left in the
  result, and the result neither begins nor ends with a blank. A turn is dropped exactly
  when its cleaned message is empty or is \<^verbatim>\<open>none\<close> in any mix of upper and lower case. The
  label is \<^verbatim>\<open>Alfred\<close> for the role \<^verbatim>\<open>agent\<close>, the caller's name for the role \<^verbatim>\<open>user\<close>, and the
  role itself for any other role.
\<close>

theorem turns_normalised:
  "build_lines callerName ts =
     map (\<lambda>t. speaker_label callerName t @ '': '' @ clean_message t)
       (filter (\<lambda>t. clean_message t \<noteq> [] \<and> toLowerCase (clean_message t) \<noteq> ''none'') ts) \<and>
   (\<forall>t s. message t = Some s \<and> CHR ''<'' \<notin> set s \<longrightarrow> clean_message t = trim s) \<and>
   (\<forall>t xs tag ys. message t = Some (xs @ CHR ''<'' # tag @ CHR ''>'' # ys) \<and> CHR ''<'' \<notin> set xs \<and>
        tag \<noteq> [] \<and> CHR ''>'' \<notin> set tag \<longrightarrow> clean_message t = trim (xs @ strip_tags ys)) \<and>
   (\<forall>t xs tag ys. tag \<noteq> [] \<and> CHR ''>'' \<notin> set tag \<longrightarrow>
        clean_message t \<noteq> xs @ CHR ''<'' # tag @ CHR ''>'' # ys) \<and>
   (\<forall>t. clean_message t \<noteq> [] \<longrightarrow>
        \<not> is_space (hd (clean_message t)) \<and> \<not> is_space (last (clean_message t))) \<and>
   (\<forall>s. toLowerCase s = ''none'' \<longleftrightarrow>
        (\<exists>a b c d. s = [a, b, c, d] \<and> (a = CHR ''n'' \<or> a = CHR ''N'') \<and> (b = CHR ''o'' \<or> b = CHR ''O'') \<and>
           (c = CHR ''n'' \<or> c = CHR ''N'') \<and> (d = CHR ''e'' \<or> d = CHR ''E''))) \<and>
   (\<forall>t. role t = Some ''agent'' \<longrightarrow> speaker_label callerName t = ''Alfred'') \<and>
   (\<forall>t. role t = Some ''user'' \<longrightarrow> speaker_label callerName t = callerName) \<and>
   (\<forall>t r. role t = Some r \<and> r \<noteq> ''agent'' \<and> r \<noteq> ''user'' \<longrightarrow> speaker_label callerName t = r)"
proof (intro conjI allI impI)
  show "build_lines callerName ts =
     map (\<lambda>t. speaker_label callerName t @ '': '' @ clean_message t)
       (filter (\<lambda>t. clean_message t \<noteq> [] \<and> toLowerCase (clean_message t) \<noteq> ''none'') ts)"
    by (rule build_lines_map_filter)
next
  fix t :: turn and s
  assume "message t = Some s \<and> CHR ''<'' \<notin> set s"
  then show "clean_message t = trim s"
    by (simp add: clean_message_def coalesce_def strip_tags_no_lt)
next
  fix t :: turn and xs tag ys
  assume "message t = Some (xs @ CHR ''<'' # tag @ CHR ''>'' # ys) \<and> CHR ''<'' \<notin> set xs \<and>
        tag \<noteq> [] \<and> CHR ''>'' \<notin> set tag"
  then have m: "message t = Some (xs @ CHR ''<'' # tag @ CHR ''>'' # ys)" and x: "CHR ''<'' \<notin> set xs"
    and g: "tag \<noteq> []" "CHR ''>'' \<notin> set tag" by simp_all
  have "strip_tags (xs @ CHR ''<'' # tag @ CHR ''>'' # ys) = xs @ strip_tags ys"
    by (simp only: strip_tags_append [OF x] strip_tags_tag [OF g])
  then show "clean_message t = trim (xs @ strip_tags ys)"
    using m by (simp add: clean_message_def coalesce_def)
next
  fix t :: turn and xs tag ys
  assume "tag \<noteq> [] \<and> CHR ''>'' \<notin> set tag"
  then show "clean_message t \<noteq> xs @ CHR ''<'' # tag @ CHR ''>'' # ys"
    unfolding clean_message_def using no_tag_clean by blast
next
  fix t :: turn
  assume "clean_message t \<noteq> []"
  then show "\<not> is_space (hd (clean_message t))" and "\<not> is_space (last (clean_message t))"
    unfolding clean_message_def using trim_ends by blast+
next
  fix s
  show "toLowerCase s = ''none'' \<longleftrightarrow>
        (\<exists>a b c d. s = [a, b, c, d] \<and> (a = CHR ''n'' \<or> a = CHR ''N'') \<and> (b = CHR ''o'' \<or> b = CHR ''O'') \<and>
           (c = CHR ''n'' \<or> c = CHR ''N'') \<and> (d = CHR ''e'' \<or> d = CHR ''E''))"
    by (rule toLowerCase_none)
next
  fix t :: turn
  assume "role t = Some ''agent''"
  then show "speaker_label callerName t = ''Alfred''"
    by (simp add: speaker_label_def coalesce_def)
next
  fix t :: turn
  assume "role t = Some ''user''"
  then show "speaker_label callerName t = callerName"
    by (simp add: speaker_label_def coalesce_def)
next
  fix t :: turn and r
  assume "role t = Some r \<and> r \<noteq> ''agent'' \<and> r \<noteq> ''user''"
  then show "speaker_label callerName t = r"
    by (simp add: speaker_label_def coalesce_def)
qed

theorem turns_normalised_witness:
  "build_lines (callerName_of ex_config ex_call) (transcript_of ex_call) =
     [''Alfred: Hola  Maria'', ''Mom: Paella'']"
proof -
  have "map (\<lambda>t. speaker_label (callerName_of ex_config ex_call) t @ '': '' @ clean_message t)
       (filter (\<lambda>t. clean_message t \<noteq> [] \<and> toLowerCase (clean_message t) \<noteq> ''none'')
          (transcript_of ex_call)) = [''Alfred: Hola  Maria'', ''Mom: Paella'']"
    by code_simp
  then show ?thesis
    using turns_normalised [of "callerName_of ex_config ex_call" "transcript_of ex_call"]
    by simp
qed

section \<open>The inbox file\<close>

























section \<open>The order of a scan\<close>

text \<open>
  A tick marks the entries it processes in the order of \<^const>\<open>mailbox_entries\<close>: the buckets
  in descending order of their names, the files of a bucket in the order of its listing.
\<close>

lemma processed_log_visit:
  "processed_log (visit a cfg mb env t P dp f w) (processedFilePath t) =
   processed_log w (processedFilePath t) @
   (if join dp f \<notin> P \<and> failure cfg mb (join dp f) = None then [join dp f] else [])"
proof (cases "join dp f \<in> P")
  case True
  then show ?thesis by (simp add: visit_def Let_def)
next
  case False
  obtain r w1 where pt: "processTranscript a cfg mb (env (join dp f)) t (join dp f) w = (r, w1)"
    by (cases "processTranscript a cfg mb (env (join dp f)) t (join dp f) w")
  have "processed_log w1 (processedFilePath t) =
      processed_log w (processedFilePath t) @
      (if failure cfg mb (join dp f) = None then [join dp f] else [])"
    using processTranscript_log [of a cfg mb "env (join dp f)" t "join dp f" w] pt by simp
  then show ?thesis
    using False pt by (cases r) (simp_all add: visit_def Let_def processed_log_emit)
qed

lemma processed_log_process_entries:
  "processed_log (process_entries a cfg mb env t P dp fs w) (processedFilePath t) =
   processed_log w (processedFilePath t) @
   filter (\<lambda>p. p \<notin> P \<and> failure cfg mb p = None) (map (join dp) fs)"
  by (induction fs arbitrary: w) (simp_all add: processed_log_visit)

lemma processed_log_scan_buckets:
  "processed_log (scan_buckets a cfg mb env t P ds w) (processedFilePath t) =
   processed_log w (processedFilePath t) @
   filter (\<lambda>p. p \<notin> P \<and> failure cfg mb p = None)
     (concat (map (\<lambda>d. map (join (join t d)) (bucket_files mb t d)) ds))"
proof (induction ds arbitrary: w)
  case Nil
  then show ?case by simp
next
  case (Cons d ds)
  show ?case
    unfolding scan_buckets_Cons Cons.IH processed_log_process_entries by simp
qed

lemma tick_marks_in_listing_order:
  "processed_log (tick a cfg mb env t w) (processedFilePath t) =
   processed_log w (processedFilePath t) @
   filter (\<lambda>p. p \<notin> loadProcessed t w \<and> failure cfg mb p = None) (mailbox_entries mb t)"
  by (simp add: tick_eq mailbox_entries_def processed_log_scan_buckets processed_log_emit
      split: sum.splits)

lemma buckets_newest_first: "sorted (rev (rev (sort (names :: string list))))"
  by simp

text \<open>
  C5. The buckets are visited newest first, but the files of a bucket are visited as
  \<^verbatim>\<open>readdirSync\<close> lists them: \<^verbatim>\<open>scanAndProcessTranscripts\<close> filters the listing and does not
  sort it, as \<^verbatim>\<open>listTranscripts\<close> does with \<^verbatim>\<open>.sort().reverse()\<close>. In the bucket of 1 March,
  listed with the call of 14:30 before the call of 15:45, the earlier call is processed
  and marked first.
\<close>

theorem bucket_scanned_in_directory_order:
  "mb_readdir ex_mailbox ''/t/2024-03-01'' =
     Inr [''14-30-00_abc.json'', ''15-45-10_xyz.json'', ''16-00-00_bad.json'', ''notes.txt''] \<and>
   processed_log (tick ex_api ex_config ex_mailbox (\<lambda>p. all_succeed) ''/t'' ex_world)
     (processedFilePath ''/t'') =
     [''/t/2024-03-02/08-05-00_abc2.json'', ''/t/2024-03-01/14-30-00_abc.json'',
      ''/t/2024-03-01/15-45-10_xyz.json'', ''/t/2024-02-28/09-15-00_hup.json'']"
  by code_simp

section \<open>The fields of a payload\<close>

lemma callDuration_flat: "data d = None \<Longrightarrow> callDuration d = 0"
  by (simp add: callDuration_def coalesce_def)

lemma userPhone_fallback:
  "userPhone d =
     (case Option.bind (data d) user_id of
        Some v \<Rightarrow> v
      | None \<Rightarrow> (case user_id d of Some v \<Rightarrow> v | None \<Rightarrow> []))"
  by (simp add: userPhone_def coalesce_def split: option.splits)

lemma conversationId_fallback:
  "conversationId d =
     (case Option.bind (data d) conversation_id of
        Some v \<Rightarrow> v
      | None \<Rightarrow> (case conversation_id d of Some v \<Rightarrow> v | None \<Rightarrow> ''unknown''))"
  by (simp add: conversationId_def coalesce_def split: option.splits)

text \<open>
  C6. The caller's number and the conversation identifier are read from the nested body
  first and from the top level otherwise; the duration is read from the nested body only
  and is zero otherwise. The flat payload \<^const>\<open>ex_flat\<close> carries a duration of 125 seconds
  in its own \<^verbatim>\<open>metadata\<close>; its number and identifier are found, its duration is not.
\<close>

theorem flat_duration_is_not_read:
  "metadata ex_flat = Some \<lparr>call_duration_secs = Some 125\<rparr> \<and> data ex_flat = None \<and>
   userPhone ex_flat = ''+19995550000'' \<and> conversationId ex_flat = ''xyz'' \<and>
   callDuration ex_flat = 0 \<and> durationStr (callDuration ex_flat) = ''unknown duration'' \<and>
   callDuration ex_call = 125 \<and> durationStr (callDuration ex_call) = ''2m5s''"
  by code_simp

section \<open>Looking a transcript up\<close>

text \<open>
  C10. \<^const>\<open>getTranscript\<close> takes the first file, buckets newest first, whose name contains
  the identifier. Asked for the conversation \<^verbatim>\<open>abc\<close>, whose file
  \<^verbatim>\<open>2024-03-01/14-30-00_abc.json\<close> exists and parses, it answers with the dialogue of the
  conversation \<^verbatim>\<open>abc2\<close> of 2 March, under the identifier \<^verbatim>\<open>abc\<close>.
\<close>

theorem getTranscript_returns_other_conversation:
  "mb_read ex_mailbox ''/t/2024-03-01/14-30-00_abc.json'' = Inr ex_call \<and>
   conversationId ex_call = ''abc'' \<and> conversationId ex_later = ''abc2'' \<and>
   getTranscript ex_mailbox ''/t'' ''abc'' (contacts ex_config) =
     Inr (transcript_json ''abc'' (contacts ex_config) ex_later) \<and>
   timestamped_lines (callerName_of ex_config ex_later) (transcript_of ex_later) =
     [''[0:01] Alfred: Again''] \<and>
   timestamped_lines (callerName_of ex_config ex_call) (transcript_of ex_call) =
     [''[0:00] Alfred: Hola <break/> Maria'', ''[0:04] Mom: None'', ''[1:05] Mom: Paella''] \<and>
   getTranscript ex_mailbox ''/t'' ''abc'' (contacts ex_config) \<noteq>
     Inr (transcript_json ''abc'' (contacts ex_config) ex_call)"
  by code_simp

section \<open>Caller-name resolution\<close>

text \<open>
  C8, as amended. The directory's name is returned when the number is a key whose name
  is not empty. A number that is not empty is returned itself when it is the key of an
  empty name, or when it is no key and is not the name of a member that every object
  inherits. An empty number that is no key, or the key of an empty name, gives the
  sentinel. (What is returned for a number that is the name of an inherited member and no
  key is left open here.)
\<close>

theorem resolveCallerName_cases:
  "(directory phone = Some name \<and> name \<noteq> [] \<longrightarrow>
      resolveCallerName phone directory = Name name) \<and>
   (phone \<noteq> [] \<and>
    (directory phone = Some [] \<or>
     directory phone = None \<and> phone \<notin> set object_prototype_names) \<longrightarrow>
      resolveCallerName phone directory = Name phone) \<and>
   (phone = [] \<and> (directory phone = None \<or> directory phone = Some []) \<longrightarrow>
      resolveCallerName phone directory = Name ''Unknown caller'')"
  by (auto simp: resolveCallerName_def object_prototype_names_def)

theorem resolveCallerName_cases_witness:
  "resolveCallerName ''+34612345678'' [''+34612345678'' \<mapsto> ''Mom''] = Name ''Mom'' \<and>
   resolveCallerName ''+19995550000'' [''+34612345678'' \<mapsto> ''Mom''] = Name ''+19995550000'' \<and>
   resolveCallerName [] [''+34612345678'' \<mapsto> ''Mom''] = Name ''Unknown caller''"
proof -
  have "''+19995550000'' \<notin> set object_prototype_names"
    by code_simp
  then show ?thesis
    using resolveCallerName_cases [of "[''+34612345678'' \<mapsto> ''Mom'']" "''+34612345678''" "''Mom''"]
      resolveCallerName_cases [of "[''+34612345678'' \<mapsto> ''Mom'']" "''+19995550000''" "''Mom''"]
      resolveCallerName_cases [of "[''+34612345678'' \<mapsto> ''Mom'']" "[]" "''Mom''"]
    by simp
qed

text \<open>
  C8 as it is written fails in three ways. A key whose display name is the empty string
  gives the number, not the mapped name. The number \<^verbatim>\<open>constructor\<close>, which is not empty and
  not mapped, gives the function that the directory inherits, not the number. The empty
  number, when the directory has a name for it, gives that name, not the sentinel.
\<close>

theorem resolveCallerName_counterexample:
  "[''+34612345678'' \<mapsto> []] ''+34612345678'' = Some [] \<and>
   resolveCallerName ''+34612345678'' [''+34612345678'' \<mapsto> []] = Name ''+34612345678'' \<and>
   resolveCallerName ''+34612345678'' [''+34612345678'' \<mapsto> []] \<noteq> Name [] \<and>
   [''+34612345678'' \<mapsto> ''Mom''] ''constructor'' = None \<and>
   resolveCallerName ''constructor'' [''+34612345678'' \<mapsto> ''Mom''] = Inherited ''constructor'' \<and>
   resolveCallerName ''constructor'' [''+34612345678'' \<mapsto> ''Mom''] \<noteq> Name ''constructor'' \<and>
   [[] \<mapsto> ''Ghost''] [] = Some ''Ghost'' \<and>
   resolveCallerName [] [[] \<mapsto> ''Ghost''] = Name ''Ghost'' \<and>
   resolveCallerName [] [[] \<mapsto> ''Ghost''] \<noteq> Name ''Unknown caller''"
  by (simp add: resolveCallerName_def object_prototype_names_def)

end
